theory Spec2Isabelle
  imports Complex_Main
begin

section \<open>JavaScript numbers\<close>

text \<open>
  Every number of the source is a JavaScript \<^verbatim>\<open>number\<close>: an IEEE 754 double. A finite
  double is modelled by the real number it denotes, and each arithmetic operation rounds its
  exact result to 53 significant bits, to nearest, ties to even. The two infinities and NaN
  are values of their own, so that a division by zero is what JavaScript makes of it. The
  exponent range of a double and the sign of zero are not modelled: the operands here are
  pixel counts, whose quotients and products neither overflow nor underflow, and no
  operation divides by a computed zero.
\<close>

fun bits :: "nat \<Rightarrow> nat" where
  "bits n = (if n = 0 then 0 else Suc (bits (n div 2)))"

declare bits.simps [simp del]

definition binade :: "real \<Rightarrow> int" where
  "binade x =
     (let a = \<bar>x\<bar>
      in if 1 \<le> a then int (bits (nat \<lfloor>a\<rfloor>)) - 1
         else (let k = int (bits (nat \<lfloor>1 / a\<rfloor>)) - 1
               in if a = 2 powi (- k) then - k else - k - 1))"

definition roundTiesToEven :: "real \<Rightarrow> int" where
  "roundTiesToEven s =
     (let f = \<lfloor>s\<rfloor>; d = s - of_int f
      in if d < 1 / 2 then f else if 1 / 2 < d then f + 1 else if even f then f else f + 1)"

definition fl :: "real \<Rightarrow> real" where
  "fl x = (if x = 0 then 0
           else (let u = 2 powi (binade x - 52) in of_int (roundTiesToEven (x / u)) * u))"

datatype number = NaN | PosInfinity | NegInfinity | Num real

fun divide_number :: "number \<Rightarrow> number \<Rightarrow> number" where
  "divide_number (Num a) (Num b) =
     (if b = 0 then (if a = 0 then NaN else if 0 < a then PosInfinity else NegInfinity)
      else Num (fl (a / b)))"
| "divide_number (Num a) PosInfinity = Num 0"
| "divide_number (Num a) NegInfinity = Num 0"
| "divide_number PosInfinity (Num b) = (if 0 \<le> b then PosInfinity else NegInfinity)"
| "divide_number NegInfinity (Num b) = (if 0 \<le> b then NegInfinity else PosInfinity)"
| "divide_number _ _ = NaN"

fun times_number :: "number \<Rightarrow> number \<Rightarrow> number" where
  "times_number (Num a) (Num b) = Num (fl (a * b))"
| "times_number (Num a) PosInfinity =
     (if a = 0 then NaN else if 0 < a then PosInfinity else NegInfinity)"
| "times_number (Num a) NegInfinity =
     (if a = 0 then NaN else if 0 < a then NegInfinity else PosInfinity)"
| "times_number PosInfinity (Num b) =
     (if b = 0 then NaN else if 0 < b then PosInfinity else NegInfinity)"
| "times_number NegInfinity (Num b) =
     (if b = 0 then NaN else if 0 < b then NegInfinity else PosInfinity)"
| "times_number PosInfinity PosInfinity = PosInfinity"
| "times_number PosInfinity NegInfinity = NegInfinity"
| "times_number NegInfinity PosInfinity = NegInfinity"
| "times_number NegInfinity NegInfinity = PosInfinity"
| "times_number _ _ = NaN"

fun minus_number :: "number \<Rightarrow> number \<Rightarrow> number" where
  "minus_number (Num a) (Num b) = Num (fl (a - b))"
| "minus_number (Num a) PosInfinity = NegInfinity"
| "minus_number (Num a) NegInfinity = PosInfinity"
| "minus_number PosInfinity (Num b) = PosInfinity"
| "minus_number NegInfinity (Num b) = NegInfinity"
| "minus_number PosInfinity NegInfinity = PosInfinity"
| "minus_number NegInfinity PosInfinity = NegInfinity"
| "minus_number _ _ = NaN"

fun greater_number :: "number \<Rightarrow> number \<Rightarrow> bool" where
  "greater_number (Num a) (Num b) = (b < a)"
| "greater_number PosInfinity (Num b) = True"
| "greater_number PosInfinity NegInfinity = True"
| "greater_number (Num a) NegInfinity = True"
| "greater_number _ _ = False"

text \<open>
  A canvas dimension is an \<^verbatim>\<open>unsigned long\<close>. A number assigned to it is converted as Web IDL
  says (NaN and the infinities become 0, a fraction is cut off, the rest is taken modulo
  \<open>2\<^sup>3\<^sup>2\<close>), and a value above 2147483647 is replaced by the dimension's default.
\<close>

definition toUnsignedLong :: "number \<Rightarrow> nat" where
  "toUnsignedLong v =
     (case v of
        Num r \<Rightarrow> nat ((if 0 \<le> r then \<lfloor>r\<rfloor> else \<lceil>r\<rceil>) mod 2 ^ 32)
      | _ \<Rightarrow> 0)"

definition setDimension :: "nat \<Rightarrow> number \<Rightarrow> nat" where
  "setDimension dflt v = (let n = toUnsignedLong v in if n \<le> 2147483647 then n else dflt)"

section \<open>Images, canvases and files\<close>

text \<open>
  A loaded \<^verbatim>\<open>Image\<close> element is its source URL and its natural size. The element is never
  attached to a document, so its \<^verbatim>\<open>width\<close> and \<^verbatim>\<open>height\<close> are the natural ones.
\<close>

datatype image = Image (src: string) (naturalWidth: nat) (naturalHeight: nat)

text \<open>
  A canvas is its size and the drawing calls made on its 2D context, in order:
  \<^verbatim>\<open>fillRect\<close> with the fill style in force, \<^verbatim>\<open>drawImage\<close> with a destination rectangle, and
  \<^verbatim>\<open>drawImage\<close> with a source and a destination rectangle.
\<close>

datatype draw =
    FillRect string number number number number
  | DrawImage image number number number number
  | DrawImageRegion image number number number number number number number number

record canvas =
  width :: nat
  height :: nat
  drawn :: "draw list"

text \<open>
  The bytes of a file are either what the user selected (opaque, under a tag) or a canvas
  encoded in a given format at a given quality.
\<close>

datatype bytes = Uploaded string | Encoded canvas string number

record File =
  name :: string
  fileType :: string
  lastModified :: nat
  bytes :: bytes

datatype thrown = Error string | TypeError | ProgressEvent

section \<open>The generative model's requests and responses\<close>

datatype part = Text string | InlineData string string

record request =
  model :: string
  contents :: "part list"

record blob =
  mimeType :: "string option"
  data :: "string option"

record responsePart =
  partText :: "string option"
  inlineData :: "blob option"

record content =
  parts :: "responsePart list option"

record candidate =
  content :: "content option"

record response =
  responseText :: "string option"
  candidates :: "candidate list option"

section \<open>The browser and the remote service\<close>

text \<open>
  Everything the code asks of its environment is a field of the world it runs in: whether
  the client can be constructed, what a \<^verbatim>\<open>FileReader\<close> makes of a file (\<open>None\<close> is its error
  event), whether an image loads from a URL and with what natural size (\<open>None\<close> is the error
  event), whether a canvas of a given size gets a 2D context, whether a canvas can be
  encoded, the base64 text of some bytes, the answer of the remote model to a request, and
  the clock.
\<close>

record world =
  newGoogleGenAI :: "thrown option"
  readAsDataURL :: "File \<Rightarrow> string option"
  loadImage :: "string \<Rightarrow> (nat \<times> nat) option"
  getContext :: "nat \<Rightarrow> nat \<Rightarrow> bool"
  encodes :: "canvas \<Rightarrow> bool"
  base64 :: "bytes \<Rightarrow> string"
  generateContent :: "request \<Rightarrow> thrown + response"
  now :: nat

text \<open>
  \<^verbatim>\<open>canvas.toBlob\<close> hands its callback \<^verbatim>\<open>null\<close> for a canvas without pixels or when the
  encoding fails; \<^verbatim>\<open>canvas.toDataURL\<close> returns \<^verbatim>\<open>data:,\<close> for a canvas without pixels.
  JPEG is a format every browser encodes, so the type asked for is the type of the result.
  The canvases here are drawn from data URLs only and are never tainted.
\<close>

definition toBlob :: "world \<Rightarrow> canvas \<Rightarrow> string \<Rightarrow> number \<Rightarrow> bytes option" where
  "toBlob w c t q =
     (if width c = 0 then None
      else if height c = 0 then None
      else if encodes w c then Some (Encoded c t q)
      else None)"

definition toDataURL :: "world \<Rightarrow> canvas \<Rightarrow> string \<Rightarrow> number \<Rightarrow> string" where
  "toDataURL w c t q =
     (if width c = 0 then ''data:,''
      else if height c = 0 then ''data:,''
      else ''data:'' @ t @ '';base64,'' @ base64 w (Encoded c t q))"

definition quality :: number where
  "quality = Num (fl (95 / 100))"

section \<open>The helpers of the service\<close>

definition getImageDimensions :: "world \<Rightarrow> File \<Rightarrow> thrown + nat \<times> nat" where
  "getImageDimensions w f =
     (case readAsDataURL w f of
        None \<Rightarrow> Inl (Error ''File reader error: [object ProgressEvent]'')
      | Some result \<Rightarrow>
          if result = [] then Inl (Error ''Failed to read file.'')
          else (case loadImage w result of
                  None \<Rightarrow> Inl (Error ''Image load error: [object Event]'')
                | Some (nw, nh) \<Rightarrow>
                    Inr (naturalWidth (Image result nw nh), naturalHeight (Image result nw nh))))"

definition cropToOriginalAspectRatio ::
    "world \<Rightarrow> string \<Rightarrow> number \<Rightarrow> number \<Rightarrow> number \<Rightarrow> thrown + string" where
  "cropToOriginalAspectRatio w imageDataUrl originalWidth originalHeight targetDimension =
     (case loadImage w imageDataUrl of
        None \<Rightarrow> Inl (Error ''Image load error during cropping: [object Event]'')
      | Some (nw, nh) \<Rightarrow>
          (let img = Image imageDataUrl nw nh;
               aspectRatio = divide_number originalWidth originalHeight;
               contentWidth =
                 (if greater_number aspectRatio (Num 1) then targetDimension
                  else times_number targetDimension aspectRatio);
               contentHeight =
                 (if greater_number aspectRatio (Num 1)
                  then divide_number targetDimension aspectRatio
                  else targetDimension);
               x = divide_number (minus_number targetDimension contentWidth) (Num 2);
               y = divide_number (minus_number targetDimension contentHeight) (Num 2);
               cw = setDimension 300 contentWidth;
               ch = setDimension 150 contentHeight
           in if \<not> getContext w cw ch
              then Inl (Error ''Could not get canvas context for cropping.'')
              else Inr (toDataURL w
                     \<lparr>width = cw, height = ch,
                      drawn = [DrawImageRegion img x y contentWidth contentHeight
                                 (Num 0) (Num 0) contentWidth contentHeight]\<rparr>
                     ''image/jpeg'' quality)))"

definition resizeImage :: "world \<Rightarrow> File \<Rightarrow> number \<Rightarrow> thrown + File" where
  "resizeImage w f targetDimension =
     (case readAsDataURL w f of
        None \<Rightarrow> Inl (Error ''File reader error: [object ProgressEvent]'')
      | Some result \<Rightarrow>
          if result = [] then Inl (Error ''Failed to read file.'')
          else (case loadImage w result of
                  None \<Rightarrow> Inl (Error ''Image load error: [object Event]'')
                | Some (nw, nh) \<Rightarrow>
                    (let img = Image result nw nh;
                         cw = setDimension 300 targetDimension;
                         ch = setDimension 150 targetDimension
                     in if \<not> getContext w cw ch
                        then Inl (Error ''Could not get canvas context.'')
                        else
                          (let aspectRatio =
                                 divide_number (Num (of_nat (naturalWidth img)))
                                   (Num (of_nat (naturalHeight img)));
                               newWidth =
                                 (if greater_number aspectRatio (Num 1) then targetDimension
                                  else times_number targetDimension aspectRatio);
                               newHeight =
                                 (if greater_number aspectRatio (Num 1)
                                  then divide_number targetDimension aspectRatio
                                  else targetDimension);
                               x = divide_number (minus_number targetDimension newWidth) (Num 2);
                               y = divide_number (minus_number targetDimension newHeight) (Num 2)
                           in case toBlob w
                                  \<lparr>width = cw, height = ch,
                                   drawn = [FillRect ''black'' (Num 0) (Num 0)
                                              targetDimension targetDimension,
                                            DrawImage img x y newWidth newHeight]\<rparr>
                                  ''image/jpeg'' quality of
                                None \<Rightarrow> Inl (Error ''Canvas to Blob conversion failed.'')
                              | Some b \<Rightarrow>
                                  Inr \<lparr>name = name f, fileType = ''image/jpeg'',
                                       lastModified = now w, bytes = b\<rparr>))))"

text \<open>
  \<^verbatim>\<open>dataUrl.split(',')\<close>, and the first match of \<^verbatim>\<open>/:(.*?);/\<close>: the text between the
  leftmost colon that is followed by a semicolon on the same line and that semicolon.
\<close>

fun split :: "char \<Rightarrow> string \<Rightarrow> string list" where
  "split sep [] = [[]]"
| "split sep (c # cs) =
     (if c = sep then [] # split sep cs
      else (case split sep cs of [] \<Rightarrow> [[c]] | s # ss \<Rightarrow> (c # s) # ss))"

fun upToSemicolon :: "string \<Rightarrow> string option" where
  "upToSemicolon [] = None"
| "upToSemicolon (c # cs) =
     (if c = CHR '';'' then Some []
      else if c = CHR 0x0A \<or> c = CHR 0x0D then None
      else map_option ((#) c) (upToSemicolon cs))"

fun mimeMatch :: "string \<Rightarrow> string option" where
  "mimeMatch [] = None"
| "mimeMatch (c # cs) =
     (if c = CHR '':''
      then (case upToSemicolon cs of Some m \<Rightarrow> Some m | None \<Rightarrow> mimeMatch cs)
      else mimeMatch cs)"

definition fileToPart :: "world \<Rightarrow> File \<Rightarrow> thrown + part" where
  "fileToPart w f =
     (case readAsDataURL w f of
        None \<Rightarrow> Inl ProgressEvent
      | Some dataUrl \<Rightarrow>
          (let arr = split CHR '','' dataUrl
           in if length arr < 2 then Inl (Error ''Invalid data URL'')
              else (case mimeMatch (arr ! 0) of
                      None \<Rightarrow> Inl (Error ''Could not parse MIME type from data URL'')
                    | Some m \<Rightarrow>
                        if m = [] then Inl (Error ''Could not parse MIME type from data URL'')
                        else Inr (InlineData m (arr ! 1)))))"

section \<open>The orchestrator\<close>

definition newline :: string where
  "newline = [CHR 0x0A]"

definition descriptionPrompt :: string where
  \<open>descriptionPrompt = concat
    [newline,
     ''You are an expert scene analyst. I will provide you with an image of a scene.'',
     newline,
     ''Your task is to identify the single most prominent monitor, television, or video wall screen in the entire image.'',
     newline,
     ''Provide a dense, semantic description of this specific screen and its location. This description will be used to guide another AI to replace the content on the screen.'',
     newline,
     newline,
     ''Example descriptions:'',
     newline,
     ''- "The target is the screen of the black television on the wooden media console, to the left of the white vase."'',
     newline,
     ''- "The target is the laptop screen on the desk, which is positioned next to a stack of books and a silver lamp."'',
     newline,
     ''- "The target is the large computer monitor with a silver stand in the center of the image."'',
     newline,
     newline,
     ''If you cannot find a suitable screen, as a fallback, describe the most prominent and suitable flat surface for displaying a design.'',
     newline,
     newline,
     ''Provide only the description in a few sentences.'',
     newline]\<close>

definition promptBefore :: string where
  \<open>promptBefore = concat
    [newline,
     ''**Role:**'',
     newline,
     ''You are a visual composition expert. Your task is to take a 'design' image and display it on the screen of a monitor/television within a 'context' image. You must completely replace the original content of this screen with the design image.'',
     newline,
     newline,
     ''**Specifications:**'',
     newline,
     ''-   **Design to display:**'',
     newline,
     ''    The first image provided. This is the image that should appear on the monitor screen. Ignore any black padding around it.'',
     newline,
     ''-   **Context to use:**'',
     newline,
     ''    The second image provided. This is the context containing the monitor. Ignore any black padding around it.'',
     newline,
     ''-   **Target Screen (Crucial):**'',
     newline,
     ''    -   You must locate the specific screen in the context as described below. This is the screen whose content you will replace.'',
     newline,
     ''    -   **Screen Description:** "'']\<close>

definition promptAfter :: string where
  \<open>promptAfter = concat
    [''"'',
     newline,
     ''-   **Final Image Requirements:**'',
     newline,
     ''    -   The design image must be realistically displayed on the target screen.'',
     newline,
     ''    -   Adjust the design image to match the screen's perspective, aspect ratio, and orientation. The design should fill the screen.'',
     newline,
     ''    -   The design image must fill the entire screen, completely covering all of its original content.'',
     newline,
     ''    -   The final image's overall style, lighting, shadows, and camera perspective must match the original context. The design on the screen should be affected by the context's lighting, including reflections or glare on the screen surface.'',
     newline,
     ''    -   Do not simply paste the design. It must look like it is genuinely being displayed on the monitor.'',
     newline,
     ''    -   You must not return the original context image without the design displayed on the monitor.'',
     newline,
     newline,
     ''The output should ONLY be the final, composed image. Do not add any text or explanation.'',
     newline]\<close>

definition prompt :: "string option \<Rightarrow> string" where
  "prompt semanticLocationDescription =
     promptBefore
     @ (case semanticLocationDescription of None \<Rightarrow> ''undefined'' | Some s \<Rightarrow> s)
     @ promptAfter"

definition MAX_DIMENSION :: number where
  "MAX_DIMENSION = Num 1024"

text \<open>
  A run is the list of the calls the orchestrator has made, in order, and how it ended:
  with the value thrown or with the final image URL. Console output is left out.
\<close>

datatype event =
    NewGoogleGenAI
  | GetImageDimensions File
  | ResizeImage File number
  | FileToPart File
  | GenerateContent request
  | CropToOriginalAspectRatio string number number number

definition await ::
    "event \<Rightarrow> thrown + 'a \<Rightarrow> ('a \<Rightarrow> event list \<times> (thrown + 'b)) \<Rightarrow> event list \<times> (thrown + 'b)" where
  "await ev r k =
     (case r of
        Inl e \<Rightarrow> ([ev], Inl e)
      | Inr a \<Rightarrow> (case k a of (tr, res) \<Rightarrow> (ev # tr, res)))"

definition imagePartFromResponse :: "response \<Rightarrow> responsePart option" where
  "imagePartFromResponse r =
     (case candidates r of
        None \<Rightarrow> None
      | Some cs \<Rightarrow>
          (case cs of
             [] \<Rightarrow> None
           | c # _ \<Rightarrow>
               (case content c of
                  None \<Rightarrow> None
                | Some ct \<Rightarrow>
                    (case parts ct of
                       None \<Rightarrow> None
                     | Some ps \<Rightarrow> find (\<lambda>p. inlineData p \<noteq> None) ps))))"

definition descriptionRequest :: "part \<Rightarrow> request" where
  "descriptionRequest contextImagePart =
     \<lparr>model = ''gemini-2.5-flash-lite'',
      contents = [Text descriptionPrompt, contextImagePart]\<rparr>"

definition compositionRequest :: "part \<Rightarrow> part \<Rightarrow> string option \<Rightarrow> request" where
  "compositionRequest designImagePart contextImagePart semanticLocationDescription =
     \<lparr>model = ''gemini-2.5-flash-image'',
      contents = [designImagePart, contextImagePart, Text (prompt semanticLocationDescription)]\<rparr>"

definition generateCompositeImage ::
    "world \<Rightarrow> File \<Rightarrow> string \<Rightarrow> File \<Rightarrow> string \<Rightarrow> event list \<times> (thrown + string)" where
  "generateCompositeImage w designImage designDescription contextImage contextDescription =
     await NewGoogleGenAI
       (case newGoogleGenAI w of Some e \<Rightarrow> Inl e | None \<Rightarrow> Inr ())
       (\<lambda>ai.
     await (GetImageDimensions contextImage) (getImageDimensions w contextImage)
       (\<lambda>(originalWidth, originalHeight).
     await (ResizeImage designImage MAX_DIMENSION) (resizeImage w designImage MAX_DIMENSION)
       (\<lambda>resizedDesignImage.
     await (ResizeImage contextImage MAX_DIMENSION) (resizeImage w contextImage MAX_DIMENSION)
       (\<lambda>resizedContextImage.
     await (FileToPart resizedContextImage) (fileToPart w resizedContextImage)
       (\<lambda>contextImagePart.
     await (GenerateContent (descriptionRequest contextImagePart))
       (case generateContent w (descriptionRequest contextImagePart) of
          Inl error \<Rightarrow> Inl (Error ''The AI failed to analyze the context image.'')
        | Inr descriptionResponse \<Rightarrow> Inr (responseText descriptionResponse))
       (\<lambda>semanticLocationDescription.
     await (FileToPart resizedDesignImage) (fileToPart w resizedDesignImage)
       (\<lambda>designImagePart.
     await
       (GenerateContent
          (compositionRequest designImagePart contextImagePart semanticLocationDescription))
       (generateContent w
          (compositionRequest designImagePart contextImagePart semanticLocationDescription))
       (\<lambda>response.
          (case imagePartFromResponse response of
             Some imagePart \<Rightarrow>
               (case inlineData imagePart of
                  Some b \<Rightarrow>
                    (case data b of
                       None \<Rightarrow> ([], Inl TypeError)
                     | Some d \<Rightarrow>
                         (let generatedSquareImageUrl =
                                ''data:''
                                @ (case mimeType b of None \<Rightarrow> ''undefined'' | Some m \<Rightarrow> m)
                                @ '';base64,'' @ d
                          in await
                               (CropToOriginalAspectRatio generatedSquareImageUrl
                                  (Num (of_nat originalWidth)) (Num (of_nat originalHeight))
                                  MAX_DIMENSION)
                               (cropToOriginalAspectRatio w generatedSquareImageUrl
                                  (Num (of_nat originalWidth)) (Num (of_nat originalHeight))
                                  MAX_DIMENSION)
                               (\<lambda>finalImageUrl. ([], Inr finalImageUrl))))
                | None \<Rightarrow>
                    ([], Inl (Error ''The AI model did not return an image. Please try again.'')))
           | None \<Rightarrow>
               ([], Inl (Error ''The AI model did not return an image. Please try again.'')))))))))))"

section \<open>Notions the properties are stated with\<close>

text \<open>
  The content box as the specification words it: the aspect ratio is width over height; a
  landscape ratio (above 1) gives the full target width and the target divided by the ratio
  as height, any other ratio the full target height and the target times the ratio as
  width; the box is centred in the square. The result is \<open>(x, y, width, height)\<close>.
\<close>

definition contentBox :: "number \<Rightarrow> number \<Rightarrow> number \<Rightarrow> number \<times> number \<times> number \<times> number" where
  "contentBox w h t =
     (let aspectRatio = divide_number w h;
          contentWidth =
            (if greater_number aspectRatio (Num 1) then t else times_number t aspectRatio);
          contentHeight =
            (if greater_number aspectRatio (Num 1) then divide_number t aspectRatio else t)
      in (divide_number (minus_number t contentWidth) (Num 2),
          divide_number (minus_number t contentHeight) (Num 2),
          contentWidth, contentHeight))"

text \<open>The square canvas of the padding step and the canvas of the cropping step.\<close>

definition paddedCanvas :: "image \<Rightarrow> number \<Rightarrow> number \<times> number \<times> number \<times> number \<Rightarrow> canvas" where
  "paddedCanvas img t box =
     (case box of (x, y, bw, bh) \<Rightarrow>
        \<lparr>width = setDimension 300 t, height = setDimension 150 t,
         drawn = [FillRect ''black'' (Num 0) (Num 0) t t, DrawImage img x y bw bh]\<rparr>)"

definition croppedCanvas :: "image \<Rightarrow> nat \<Rightarrow> nat \<Rightarrow> number \<times> number \<times> number \<times> number \<Rightarrow> canvas" where
  "croppedCanvas img cw ch box =
     (case box of (x, y, bw, bh) \<Rightarrow>
        \<lparr>width = cw, height = ch,
         drawn = [DrawImageRegion img x y bw bh (Num 0) (Num 0) bw bh]\<rparr>)"

text \<open>Which calls of a run are which.\<close>

fun isDescriptionCall :: "event \<Rightarrow> bool" where
  "isDescriptionCall (GenerateContent r) = (model r = ''gemini-2.5-flash-lite'')"
| "isDescriptionCall _ = False"

fun isCompositionCall :: "event \<Rightarrow> bool" where
  "isCompositionCall (GenerateContent r) = (model r = ''gemini-2.5-flash-image'')"
| "isCompositionCall _ = False"

fun isCrop :: "event \<Rightarrow> bool" where
  "isCrop (CropToOriginalAspectRatio u ow oh t) = True"
| "isCrop _ = False"

fun isResize :: "event \<Rightarrow> bool" where
  "isResize (ResizeImage f t) = True"
| "isResize _ = False"

text \<open>A candidate with a part that carries inline data; a response without any such part.\<close>

definition hasInlineData :: "candidate \<Rightarrow> bool" where
  "hasInlineData c =
     (case content c of
        None \<Rightarrow> False
      | Some ct \<Rightarrow>
          (case parts ct of None \<Rightarrow> False | Some ps \<Rightarrow> list_ex (\<lambda>p. inlineData p \<noteq> None) ps))"

definition noInlineData :: "response \<Rightarrow> bool" where
  "noInlineData r =
     (case candidates r of None \<Rightarrow> True | Some cs \<Rightarrow> list_all (\<lambda>c. \<not> hasInlineData c) cs)"

definition isJpegDataUrl :: "string \<Rightarrow> bool" where
  "isJpegDataUrl u = (take 23 u = ''data:image/jpeg;base64,'')"

text \<open>The messages the orchestrator itself raises.\<close>

definition descriptionError :: thrown where
  "descriptionError = Error ''The AI failed to analyze the context image.''"

definition noImageError :: thrown where
  "noImageError = Error ''The AI model did not return an image. Please try again.''"

section \<open>Example worlds\<close>

text \<open>
  A browser in which every local step succeeds: the context photo decodes with the given
  natural size and every other image as 1024 by 1024; the remote service answers the
  description request and the composition request as given.
\<close>

definition designFile :: File where
  "designFile = \<lparr>name = ''design.png'', fileType = ''image/png'', lastModified = 0,
                  bytes = Uploaded ''REVTSUdO''\<rparr>"

definition contextFile :: File where
  "contextFile = \<lparr>name = ''room.png'', fileType = ''image/png'', lastModified = 0,
                   bytes = Uploaded ''Q09OVEVYVA==''\<rparr>"

definition exampleReader :: "File \<Rightarrow> string option" where
  "exampleReader f =
     Some (''data:'' @ fileType f @ '';base64,''
           @ (case bytes f of Uploaded s \<Rightarrow> s | Encoded c t q \<Rightarrow> ''/9j/''))"

definition exampleLoader :: "nat \<times> nat \<Rightarrow> string \<Rightarrow> (nat \<times> nat) option" where
  "exampleLoader contextSize u =
     (if u = ''data:image/png;base64,Q09OVEVYVA=='' then Some contextSize else Some (1024, 1024))"

definition exampleWorld :: "nat \<times> nat \<Rightarrow> thrown + response \<Rightarrow> thrown + response \<Rightarrow> world" where
  "exampleWorld contextSize descriptionAnswer compositionAnswer =
     \<lparr>newGoogleGenAI = None,
      readAsDataURL = exampleReader,
      loadImage = exampleLoader contextSize,
      getContext = (\<lambda>cw ch. True),
      encodes = (\<lambda>c. True),
      base64 = (\<lambda>b. ''/9j/''),
      generateContent =
        (\<lambda>r. if model r = ''gemini-2.5-flash-lite'' then descriptionAnswer
             else compositionAnswer),
      now = 0\<rparr>"

definition examplePart :: part where
  "examplePart = InlineData ''image/jpeg'' ''/9j/''"

definition textPart :: responsePart where
  "textPart = \<lparr>partText = Some ''Here is the image.'', inlineData = None\<rparr>"

definition pngPart :: responsePart where
  "pngPart = \<lparr>partText = None,
               inlineData = Some \<lparr>mimeType = Some ''image/png'', data = Some ''iVBORw0KGgo=''\<rparr>\<rparr>"

definition answer :: "string \<Rightarrow> responsePart list list \<Rightarrow> thrown + response" where
  "answer t pss =
     Inr \<lparr>responseText = Some t,
          candidates = Some (map (\<lambda>ps. \<lparr>content = Some \<lparr>parts = Some ps\<rparr>\<rparr>) pss)\<rparr>"

section \<open>Rounding: bounds, monotonicity, exactness\<close>

lemma bits_pos: "0 < n \<Longrightarrow> 0 < bits n"
  by (subst bits.simps) simp

lemma bits_bounds: "0 < n \<Longrightarrow> 2 ^ (bits n - 1) \<le> n \<and> n < 2 ^ bits n"
proof (induction n rule: bits.induct)
  case (1 n)
  show ?case
  proof (cases "n div 2 = 0")
    case True
    with 1(2) have n1: "n = 1" by (simp add: div_eq_0_iff) 
    have "bits 1 = 1" by (simp add: bits.simps)
    with n1 show ?thesis by simp
  next
    case False
    then have pos: "0 < n div 2" by simp
    from 1(2) have n0: "n \<noteq> 0" by simp
    from 1(1)[OF n0 pos] have lo: "2 ^ (bits (n div 2) - 1) \<le> n div 2"
      and hi: "n div 2 < 2 ^ bits (n div 2)" by simp_all
    have b: "bits n = Suc (bits (n div 2))" using n0 by (subst bits.simps) simp
    from bits_pos[OF pos] obtain k where k: "bits (n div 2) = Suc k"
      by (cases "bits (n div 2)") simp_all
    from lo k have "2 * 2 ^ k \<le> 2 * (n div 2)" by simp
    also have "\<dots> \<le> n" by simp
    finally have l: "2 ^ (bits n - 1) \<le> n" using b k by simp
    have "n < 2 * (n div 2) + 2" by presburger
    also have "\<dots> \<le> 2 * 2 ^ bits (n div 2)" using hi by simp
    finally have "n < 2 ^ bits n" using b by simp
    with l show ?thesis ..
  qed
qed


lemma bits_floor_bounds:
  fixes a :: real
  assumes "1 \<le> a"
  shows "2 ^ (bits (nat \<lfloor>a\<rfloor>) - 1) \<le> a \<and> a < 2 ^ bits (nat \<lfloor>a\<rfloor>)"
proof -
  let ?n = "nat \<lfloor>a\<rfloor>"
  from assms have fl1: "1 \<le> \<lfloor>a\<rfloor>" by simp
  then have n: "0 < ?n" by simp
  from bits_bounds[OF n] have lo: "2 ^ (bits ?n - 1) \<le> ?n" and hi: "?n < 2 ^ bits ?n"
    by simp_all
  have na: "real ?n \<le> a" using fl1 by simp
  have "(2::real) ^ (bits ?n - 1) \<le> real ?n"
    using of_nat_mono[OF lo, where 'a = real] by (simp only: of_nat_power of_nat_numeral)
  then have l: "2 ^ (bits ?n - 1) \<le> a" using na by (rule order_trans)
  have "?n + 1 \<le> 2 ^ bits ?n" using hi by linarith
  then have "real (?n + 1) \<le> 2 ^ bits ?n"
    using of_nat_mono[of "?n + 1" "2 ^ bits ?n", where 'a = real]
    by (simp only: of_nat_power of_nat_numeral)
  moreover have "a < real (?n + 1)"
  proof -
    have "a < of_int \<lfloor>a\<rfloor> + 1" by linarith
    also have "\<dots> = real (?n + 1)" using fl1 by simp
    finally show ?thesis .
  qed
  ultimately have "a < 2 ^ bits ?n" by linarith
  with l show ?thesis ..
qed

lemma binade_bounds:
  assumes "x \<noteq> 0"
  shows "2 powi binade x \<le> \<bar>x\<bar> \<and> \<bar>x\<bar> < 2 powi (binade x + 1)"
proof (cases "1 \<le> \<bar>x\<bar>")
  case True
  let ?b = "bits (nat \<lfloor>\<bar>x\<bar>\<rfloor>)"
  from True have "0 < nat \<lfloor>\<bar>x\<bar>\<rfloor>" by simp
  then have bp: "0 < ?b" by (rule bits_pos)
  have e: "binade x = int (?b - 1)" using True bp by (simp add: binade_def Let_def)
  have e1: "binade x + 1 = int ?b" using e bp by simp
  from bits_floor_bounds[OF True] show ?thesis
    unfolding e1 unfolding e by (simp only: power_int_of_nat)
next
  case False
  let ?a = "\<bar>x\<bar>"
  let ?b = "bits (nat \<lfloor>1 / ?a\<rfloor>)"
  from False assms have a: "0 < ?a" "?a < 1" by simp_all
  then have y: "1 \<le> 1 / ?a" by simp
  then have "0 < nat \<lfloor>1 / ?a\<rfloor>" by simp
  then have bp: "0 < ?b" by (rule bits_pos)
  from bits_floor_bounds[OF y] have lo: "2 ^ (?b - 1) \<le> 1 / ?a" and hi: "1 / ?a < 2 ^ ?b"
    by simp_all
  define k where "k = int ?b - 1"
  have k1: "2 powi k = 2 ^ (?b - 1)" using bp
    by (simp add: k_def power_int_def nat_diff_distrib')
  have k2: "(2::real) powi (k + 1) = 2 ^ ?b" by (simp add: k_def)
  have up: "?a \<le> 2 powi (- k)"
  proof -
    have "?a * 2 ^ (?b - 1) \<le> 1" using lo a by (simp add: field_simps)
    then show ?thesis unfolding power_int_minus k1 by (simp add: field_simps)
  qed
  have dn: "2 powi (- k - 1) < ?a"
  proof -
    have "1 < ?a * 2 ^ ?b" using hi a by (simp add: field_simps)
    then have "1 / 2 ^ ?b < ?a" by (simp add: pos_divide_less_eq)
    moreover have "- k - 1 = - int ?b" by (simp add: k_def)
    then have "(2::real) powi (- k - 1) = 1 / 2 ^ ?b"
      by (simp only: power_int_minus_divide power_int_of_nat)
    ultimately show ?thesis by simp
  qed
  show ?thesis
  proof (cases "?a = 2 powi (- k)")
    case True
    then have e: "binade x = - k" using False by (simp add: binade_def Let_def k_def)
    have "(2::real) powi (- k) < 2 powi (- k + 1)" by (rule power_int_strict_increasing) simp_all
    with True show ?thesis unfolding e by simp
  next
    case neq: False
    then have e: "binade x = - k - 1" using False by (simp add: binade_def Let_def k_def)
    from neq up have "?a < 2 powi (- k)" by simp
    with dn show ?thesis unfolding e by simp
  qed
qed

lemma binade_unique:
  assumes "2 powi e \<le> \<bar>x\<bar>" and "\<bar>x\<bar> < 2 powi (e + 1)"
  shows "binade x = e"
proof -
  have "0 < (2::real) powi e" by simp
  with assms(1) have "0 < \<bar>x\<bar>" by linarith
  then have "x \<noteq> 0" by simp
  from binade_bounds[OF this] have lo: "2 powi binade x \<le> \<bar>x\<bar>" and hi: "\<bar>x\<bar> < 2 powi (binade x + 1)"
    by simp_all
  have "\<not> binade x < e"
  proof
    assume "binade x < e"
    then have "(2::real) powi (binade x + 1) \<le> 2 powi e" by (intro power_int_increasing) simp_all
    with hi assms(1) show False by simp
  qed
  moreover have "\<not> e < binade x"
  proof
    assume "e < binade x"
    then have "(2::real) powi (e + 1) \<le> 2 powi binade x" by (intro power_int_increasing) simp_all
    with lo assms(2) show False by simp
  qed
  ultimately show ?thesis by simp
qed


lemma rte_cases: "roundTiesToEven s = \<lfloor>s\<rfloor> \<or> roundTiesToEven s = \<lfloor>s\<rfloor> + 1"
  by (simp add: roundTiesToEven_def Let_def)

lemma rte_error: "\<bar>of_int (roundTiesToEven s) - s\<bar> \<le> 1 / 2"
proof -
  have "of_int \<lfloor>s\<rfloor> \<le> s" "s < of_int \<lfloor>s\<rfloor> + 1" by linarith+
  then show ?thesis
    by (auto simp: roundTiesToEven_def Let_def abs_le_iff)
qed

lemma rte_of_int: "roundTiesToEven (of_int n) = n"
  by (simp add: roundTiesToEven_def)

lemma rte_mono:
  assumes "s \<le> t"
  shows "roundTiesToEven s \<le> roundTiesToEven t"
proof (cases "\<lfloor>s\<rfloor> = \<lfloor>t\<rfloor>")
  case True
  with assms have "s - of_int \<lfloor>s\<rfloor> \<le> t - of_int \<lfloor>s\<rfloor>" by simp
  then show ?thesis
    using True by (auto simp: roundTiesToEven_def Let_def)
next
  case False
  with floor_mono[OF assms] have "\<lfloor>s\<rfloor> + 1 \<le> \<lfloor>t\<rfloor>" by simp
  moreover have "roundTiesToEven s \<le> \<lfloor>s\<rfloor> + 1" using rte_cases[of s] by auto
  moreover have "\<lfloor>t\<rfloor> \<le> roundTiesToEven t" using rte_cases[of t] by auto
  ultimately show ?thesis by linarith
qed

lemma fl_at:
  assumes "2 powi e \<le> \<bar>x\<bar>" and "\<bar>x\<bar> < 2 powi (e + 1)"
  shows "fl x = of_int (roundTiesToEven (x / 2 powi (e - 52))) * 2 powi (e - 52)"
proof -
  have "0 < (2::real) powi e" by simp
  with assms(1) have "0 < \<bar>x\<bar>" by linarith
  then have "x \<noteq> 0" by simp
  then show ?thesis using binade_unique[OF assms] by (simp add: fl_def Let_def)
qed

lemma pow2_split: "(2::real) powi (e - 52) = 2 powi e * 2 powi (- 52)"
  using power_int_add[of "2::real" e "- 52"] by simp

lemma fl_error: "\<bar>fl x - x\<bar> \<le> \<bar>x\<bar> * 2 powi (- 53)"
proof (cases "x = 0")
  case True
  then show ?thesis by (simp add: fl_def)
next
  case False
  define u :: real where "u = 2 powi (binade x - 52)"
  have u0: "0 < u" by (simp add: u_def)
  have flx: "fl x = of_int (roundTiesToEven (x / u)) * u"
    using False by (simp add: fl_def Let_def u_def)
  have "fl x - x = (of_int (roundTiesToEven (x / u)) - x / u) * u"
    using u0 by (simp add: flx left_diff_distrib)
  then have "\<bar>fl x - x\<bar> = \<bar>of_int (roundTiesToEven (x / u)) - x / u\<bar> * u"
    using u0 by (simp add: abs_mult)
  also have "\<dots> \<le> 1 / 2 * u"
    using u0 by (intro mult_right_mono rte_error) simp
  also have "1 / 2 * u = 2 powi binade x * 2 powi (- 53)"
    by (simp add: u_def pow2_split)
  also have "\<dots> \<le> \<bar>x\<bar> * 2 powi (- 53)"
    using binade_bounds[OF False] by (intro mult_right_mono) simp_all
  finally show ?thesis .
qed

lemma fl_nonneg:
  assumes "0 \<le> x"
  shows "0 \<le> fl x"
proof (cases "x = 0")
  case True
  then show ?thesis by (simp add: fl_def)
next
  case False
  define u :: real where "u = 2 powi (binade x - 52)"
  have u0: "0 < u" by (simp add: u_def)
  have "roundTiesToEven (of_int 0) \<le> roundTiesToEven (x / u)"
    using assms u0 by (intro rte_mono) simp
  then have "0 \<le> roundTiesToEven (x / u)" by (simp only: rte_of_int)
  then show ?thesis using False u0 by (simp add: fl_def Let_def u_def[symmetric])
qed

lemma fl_mono:
  assumes "0 \<le> x" and "x \<le> y"
  shows "fl x \<le> fl y"
proof (cases "x = 0")
  case True
  then show ?thesis using fl_nonneg[of y] assms by (simp add: fl_def)
next
  case False
  with assms have x0: "0 < x" and y0: "0 < y" by simp_all
  define ex where "ex = binade x"
  define ey where "ey = binade y"
  define ux :: real where "ux = 2 powi (ex - 52)"
  define uy :: real where "uy = 2 powi (ey - 52)"
  have ux0: "0 < ux" and uy0: "0 < uy" by (simp_all add: ux_def uy_def)
  from binade_bounds[of x] x0 have xlo: "2 powi ex \<le> x" and xhi: "x < 2 powi (ex + 1)"
    by (simp_all add: ex_def)
  from binade_bounds[of y] y0 have ylo: "2 powi ey \<le> y" and yhi: "y < 2 powi (ey + 1)"
    by (simp_all add: ey_def)
  have flx: "fl x = of_int (roundTiesToEven (x / ux)) * ux"
    using x0 by (simp add: fl_def Let_def ux_def ex_def)
  have fly: "fl y = of_int (roundTiesToEven (y / uy)) * uy"
    using y0 by (simp add: fl_def Let_def uy_def ey_def)
  have le: "ex \<le> ey"
  proof (rule ccontr)
    assume "\<not> ex \<le> ey"
    then have "(2::real) powi (ey + 1) \<le> 2 powi ex" by (intro power_int_increasing) simp_all
    with xlo yhi assms(2) show False by linarith
  qed
  show ?thesis
  proof (cases "ex = ey")
    case True
    then have "ux = uy" by (simp add: ux_def uy_def)
    moreover have "roundTiesToEven (x / uy) \<le> roundTiesToEven (y / uy)"
      using assms(2) uy0 by (intro rte_mono) (simp add: divide_right_mono)
    ultimately show ?thesis using uy0 by (simp add: flx fly)
  next
    case False
    with le have lt: "ex + 1 \<le> ey" by simp
    have "x / ux \<le> of_int (2 ^ 53)"
    proof -
      have "x \<le> 2 powi (ex + 1)" using xhi by simp
      also have "(2::real) powi (ex + 1) = 2 ^ 53 * ux"
        using power_int_add[of "2::real" 53 "ex - 52"] by (simp add: ux_def add.commute)
      finally show ?thesis using ux0 by (simp add: pos_divide_le_eq)
    qed
    then have "roundTiesToEven (x / ux) \<le> roundTiesToEven (of_int (2 ^ 53))" by (rule rte_mono)
    then have "roundTiesToEven (x / ux) \<le> 2 ^ 53" by (simp only: rte_of_int)
    then have "(of_int (roundTiesToEven (x / ux)) :: real) \<le> 2 ^ 53"
      by (metis of_int_le_iff of_int_numeral of_int_power)
    then have "fl x \<le> 2 ^ 53 * ux" using ux0 by (simp add: flx)
    also have "2 ^ 53 * ux = 2 powi (ex + 1)"
      using power_int_add[of "2::real" 53 "ex - 52"] by (simp add: ux_def add.commute)
    also have "\<dots> \<le> 2 powi ey" using lt by (intro power_int_increasing) simp_all
    also have "\<dots> \<le> fl y"
    proof -
      have "(2::real) powi ey = 2 ^ 52 * uy"
        using power_int_add[of "2::real" 52 "ey - 52"] by (simp add: uy_def)
      then have "of_int (2 ^ 52) \<le> y / uy" using ylo uy0 by (simp add: pos_le_divide_eq)
      then have "roundTiesToEven (of_int (2 ^ 52)) \<le> roundTiesToEven (y / uy)" by (rule rte_mono)
      then have "2 ^ 52 \<le> roundTiesToEven (y / uy)" by (simp only: rte_of_int)
      then have "(2 ^ 52 :: real) \<le> of_int (roundTiesToEven (y / uy))"
        by (metis of_int_le_iff of_int_numeral of_int_power)
      then have "2 ^ 52 * uy \<le> fl y" using uy0 by (simp add: fly)
      then show ?thesis using \<open>(2::real) powi ey = 2 ^ 52 * uy\<close> by simp
    qed
    finally show ?thesis .
  qed
qed

lemma fl_exact:
  assumes "\<bar>m\<bar> < 2 ^ 53"
  shows "fl (of_int m * 2 powi k) = of_int m * 2 powi k"
proof (cases "m = 0")
  case True
  then show ?thesis by (simp add: fl_def)
next
  case False
  define x :: real where "x = of_int m * 2 powi k"
  have x0: "x \<noteq> 0" using False by (simp add: x_def)
  define e where "e = binade x"
  from binade_bounds[OF x0] have lo: "2 powi e \<le> \<bar>x\<bar>" by (simp add: e_def)
  have "(of_int \<bar>m\<bar> :: real) < 2 ^ 53"
    using assms by (metis of_int_less_iff of_int_numeral of_int_power)
  then have "\<bar>x\<bar> < 2 ^ 53 * 2 powi k"
    by (simp add: x_def abs_mult)
  also have "\<dots> = 2 powi (53 + k)"
    using power_int_add[of "2::real" 53 k] by simp
  finally have "(2::real) powi e < 2 powi (53 + k)" using lo by linarith
  have "e < 53 + k"
  proof (rule ccontr)
    assume "\<not> e < 53 + k"
    then have "(2::real) powi (53 + k) \<le> 2 powi e" by (intro power_int_increasing) simp_all
    with \<open>(2::real) powi e < 2 powi (53 + k)\<close> show False by simp
  qed
  then have "0 \<le> k - (e - 52)" by simp
  then obtain j where "k - (e - 52) = int j" by (rule nonneg_int_cases)
  then have j: "k = (e - 52) + int j" by simp
  have "x / 2 powi (e - 52) = of_int m * 2 powi (int j)"
    using power_int_add[of "2::real" "e - 52" "int j"] by (simp add: x_def j)
  also have "\<dots> = of_int (m * 2 ^ j)" by simp
  finally have "roundTiesToEven (x / 2 powi (e - 52)) = m * 2 ^ j" by (simp only: rte_of_int)
  then have "fl x = of_int (m * 2 ^ j) * 2 powi (e - 52)"
    using x0 by (simp add: fl_def Let_def e_def)
  also have "\<dots> = x"
    using power_int_add[of "2::real" "e - 52" "int j"] by (simp add: x_def j)
  finally show ?thesis by (simp add: x_def)
qed

lemma fl_of_nat: "n < 2 ^ 53 \<Longrightarrow> fl (of_nat n) = of_nat n"
  using fl_exact[of "int n" 0] by simp


section \<open>Evaluating the helpers\<close>

lemma fl_numeral: "(numeral n :: nat) < 2 ^ 53 \<Longrightarrow> fl (numeral n) = numeral n"
  using fl_of_nat[of "numeral n"] by simp

lemma fl_zero: "fl 0 = 0"
  by (simp add: fl_def)

lemma fl_one: "fl 1 = 1"
  using fl_of_nat[of 1] by simp

lemma toUnsignedLong_of_nat: "toUnsignedLong (Num (of_nat n)) = n mod 2 ^ 32"
proof -
  have "nat (int n mod 2 ^ 32) = n mod 2 ^ 32"
    by (metis nat_int of_nat_numeral of_nat_power zmod_int)
  then show ?thesis by (simp add: toUnsignedLong_def)
qed

lemma setDimension_of_nat: "n \<le> 2147483647 \<Longrightarrow> setDimension d (Num (of_nat n)) = n"
  by (simp add: setDimension_def toUnsignedLong_of_nat Let_def)

lemma setDimension_floor:
  assumes "0 \<le> r" and "r < 2147483648"
  shows "setDimension d (Num r) = nat \<lfloor>r\<rfloor>"
proof -
  have lo: "0 \<le> \<lfloor>r\<rfloor>" using assms(1) by simp
  have hi: "\<lfloor>r\<rfloor> < 2147483648" using assms(2) by (simp add: floor_less_iff)
  then have "\<lfloor>r\<rfloor> mod 2 ^ 32 = \<lfloor>r\<rfloor>" using lo by simp
  then have "toUnsignedLong (Num r) = nat \<lfloor>r\<rfloor>" using assms(1) by (simp add: toUnsignedLong_def)
  moreover have "nat \<lfloor>r\<rfloor> \<le> 2147483647" using hi lo by linarith
  ultimately show ?thesis by (simp add: setDimension_def Let_def)
qed

lemma resizeImage_box:
  assumes "readAsDataURL w f = Some r" and "r \<noteq> []" and "loadImage w r = Some (nw, nh)"
  shows "resizeImage w f t =
     (if \<not> getContext w (setDimension 300 t) (setDimension 150 t)
      then Inl (Error ''Could not get canvas context.'')
      else (case toBlob w
                  (paddedCanvas (Image r nw nh) t
                     (contentBox (Num (of_nat nw)) (Num (of_nat nh)) t))
                  ''image/jpeg'' quality of
              None \<Rightarrow> Inl (Error ''Canvas to Blob conversion failed.'')
            | Some b \<Rightarrow>
                Inr \<lparr>name = name f, fileType = ''image/jpeg'', lastModified = now w,
                     bytes = b\<rparr>))"
  using assms
  by (simp add: resizeImage_def paddedCanvas_def contentBox_def Let_def)

lemma crop_box:
  assumes "loadImage w u = Some (sw, sh)"
  shows "cropToOriginalAspectRatio w u ow oh t =
     (case contentBox ow oh t of (x, y, bw, bh) \<Rightarrow>
        if \<not> getContext w (setDimension 300 bw) (setDimension 150 bh)
        then Inl (Error ''Could not get canvas context for cropping.'')
        else Inr (toDataURL w
               (croppedCanvas (Image u sw sh) (setDimension 300 bw) (setDimension 150 bh)
                  (x, y, bw, bh))
               ''image/jpeg'' quality))"
  using assms
  by (simp add: cropToOriginalAspectRatio_def croppedCanvas_def contentBox_def Let_def)

lemma imagePart_inlineData:
  "imagePartFromResponse r = Some p \<Longrightarrow> inlineData p \<noteq> None"
  by (auto simp: imagePartFromResponse_def find_Some_iff
           split: option.splits list.splits)


lemma fl_16_9: "fl (16 / 9) = 2001599834386887 / 1125899906842624"
  by (subst fl_at[where e = 0]) (simp_all add: roundTiesToEven_def)

lemma fl_576: "fl (1152921504606846976 / 2001599834386887) = 576"
  by (subst fl_at[where e = 9]) (simp_all add: roundTiesToEven_def)

lemma contentBox_1920_1080:
  "contentBox (Num 1920) (Num 1080) (Num 1024) = (Num 0, Num 224, Num 1024, Num 576)"
  by (simp add: contentBox_def fl_16_9 fl_576 fl_numeral fl_zero Let_def)

section \<open>The runs of the orchestrator\<close>

text \<open>
  Every run is one of twelve: a failure at one of the calls, a response without an image
  part, image data that is undefined, or the result of the final crop.
\<close>

lemma run_cases:
  fixes w d dd c cd
  defines "run \<equiv> generateCompositeImage w d dd c cd"
  obtains
    (client) e where
      "newGoogleGenAI w = Some e"
      "run = ([NewGoogleGenAI], Inl e)"
  | (measure) e where
      "getImageDimensions w c = Inl e"
      "run = ([NewGoogleGenAI, GetImageDimensions c], Inl e)"
  | (resizeDesign) ow oh e where
      "getImageDimensions w c = Inr (ow, oh)"
      "resizeImage w d MAX_DIMENSION = Inl e"
      "run = ([NewGoogleGenAI, GetImageDimensions c, ResizeImage d MAX_DIMENSION], Inl e)"
  | (resizeContext) ow oh rd e where
      "getImageDimensions w c = Inr (ow, oh)"
      "resizeImage w d MAX_DIMENSION = Inr rd"
      "resizeImage w c MAX_DIMENSION = Inl e"
      "run = ([NewGoogleGenAI, GetImageDimensions c, ResizeImage d MAX_DIMENSION,
               ResizeImage c MAX_DIMENSION], Inl e)"
  | (contextPart) ow oh rd rc e where
      "getImageDimensions w c = Inr (ow, oh)"
      "resizeImage w d MAX_DIMENSION = Inr rd"
      "resizeImage w c MAX_DIMENSION = Inr rc"
      "fileToPart w rc = Inl e"
      "run = ([NewGoogleGenAI, GetImageDimensions c, ResizeImage d MAX_DIMENSION,
               ResizeImage c MAX_DIMENSION, FileToPart rc], Inl e)"
  | (describe) ow oh rd rc cp e where
      "getImageDimensions w c = Inr (ow, oh)"
      "resizeImage w d MAX_DIMENSION = Inr rd"
      "resizeImage w c MAX_DIMENSION = Inr rc"
      "fileToPart w rc = Inr cp"
      "generateContent w (descriptionRequest cp) = Inl e"
      "run = ([NewGoogleGenAI, GetImageDimensions c, ResizeImage d MAX_DIMENSION,
               ResizeImage c MAX_DIMENSION, FileToPart rc,
               GenerateContent (descriptionRequest cp)], Inl descriptionError)"
  | (designPart) ow oh rd rc cp dr e where
      "getImageDimensions w c = Inr (ow, oh)"
      "resizeImage w d MAX_DIMENSION = Inr rd"
      "resizeImage w c MAX_DIMENSION = Inr rc"
      "fileToPart w rc = Inr cp"
      "generateContent w (descriptionRequest cp) = Inr dr"
      "fileToPart w rd = Inl e"
      "run = ([NewGoogleGenAI, GetImageDimensions c, ResizeImage d MAX_DIMENSION,
               ResizeImage c MAX_DIMENSION, FileToPart rc,
               GenerateContent (descriptionRequest cp), FileToPart rd], Inl e)"
  | (compose) ow oh rd rc cp dr dp e where
      "getImageDimensions w c = Inr (ow, oh)"
      "resizeImage w d MAX_DIMENSION = Inr rd"
      "resizeImage w c MAX_DIMENSION = Inr rc"
      "fileToPart w rc = Inr cp"
      "generateContent w (descriptionRequest cp) = Inr dr"
      "fileToPart w rd = Inr dp"
      "generateContent w (compositionRequest dp cp (responseText dr)) = Inl e"
      "run = ([NewGoogleGenAI, GetImageDimensions c, ResizeImage d MAX_DIMENSION,
               ResizeImage c MAX_DIMENSION, FileToPart rc,
               GenerateContent (descriptionRequest cp), FileToPart rd,
               GenerateContent (compositionRequest dp cp (responseText dr))], Inl e)"
  | (noImage) ow oh rd rc cp dr dp resp where
      "getImageDimensions w c = Inr (ow, oh)"
      "resizeImage w d MAX_DIMENSION = Inr rd"
      "resizeImage w c MAX_DIMENSION = Inr rc"
      "fileToPart w rc = Inr cp"
      "generateContent w (descriptionRequest cp) = Inr dr"
      "fileToPart w rd = Inr dp"
      "generateContent w (compositionRequest dp cp (responseText dr)) = Inr resp"
      "imagePartFromResponse resp = None"
      "run = ([NewGoogleGenAI, GetImageDimensions c, ResizeImage d MAX_DIMENSION,
               ResizeImage c MAX_DIMENSION, FileToPart rc,
               GenerateContent (descriptionRequest cp), FileToPart rd,
               GenerateContent (compositionRequest dp cp (responseText dr))],
              Inl noImageError)"
  | (noData) ow oh rd rc cp dr dp resp p b where
      "getImageDimensions w c = Inr (ow, oh)"
      "resizeImage w d MAX_DIMENSION = Inr rd"
      "resizeImage w c MAX_DIMENSION = Inr rc"
      "fileToPart w rc = Inr cp"
      "generateContent w (descriptionRequest cp) = Inr dr"
      "fileToPart w rd = Inr dp"
      "generateContent w (compositionRequest dp cp (responseText dr)) = Inr resp"
      "imagePartFromResponse resp = Some p"
      "inlineData p = Some b"
      "data b = None"
      "run = ([NewGoogleGenAI, GetImageDimensions c, ResizeImage d MAX_DIMENSION,
               ResizeImage c MAX_DIMENSION, FileToPart rc,
               GenerateContent (descriptionRequest cp), FileToPart rd,
               GenerateContent (compositionRequest dp cp (responseText dr))],
              Inl TypeError)"
  | (crop) ow oh rd rc cp dr dp resp p b dat res where
      "getImageDimensions w c = Inr (ow, oh)"
      "resizeImage w d MAX_DIMENSION = Inr rd"
      "resizeImage w c MAX_DIMENSION = Inr rc"
      "fileToPart w rc = Inr cp"
      "generateContent w (descriptionRequest cp) = Inr dr"
      "fileToPart w rd = Inr dp"
      "generateContent w (compositionRequest dp cp (responseText dr)) = Inr resp"
      "imagePartFromResponse resp = Some p"
      "inlineData p = Some b"
      "data b = Some dat"
      "cropToOriginalAspectRatio w
         (''data:'' @ (case mimeType b of None \<Rightarrow> ''undefined'' | Some m \<Rightarrow> m)
          @ '';base64,'' @ dat)
         (Num (of_nat ow)) (Num (of_nat oh)) MAX_DIMENSION = res"
      "run = ([NewGoogleGenAI, GetImageDimensions c, ResizeImage d MAX_DIMENSION,
               ResizeImage c MAX_DIMENSION, FileToPart rc,
               GenerateContent (descriptionRequest cp), FileToPart rd,
               GenerateContent (compositionRequest dp cp (responseText dr)),
               CropToOriginalAspectRatio
                 (''data:'' @ (case mimeType b of None \<Rightarrow> ''undefined'' | Some m \<Rightarrow> m)
                  @ '';base64,'' @ dat)
                 (Num (of_nat ow)) (Num (of_nat oh)) MAX_DIMENSION],
              res)"
proof (cases "newGoogleGenAI w")
  case (Some e)
  then have "run = ([NewGoogleGenAI], Inl e)"
    by (simp add: run_def generateCompositeImage_def await_def)
  with Some show ?thesis by (rule client)
next
  case noClient: None
  show ?thesis
  proof (cases "getImageDimensions w c")
    case (Inl e)
    then have "run = ([NewGoogleGenAI, GetImageDimensions c], Inl e)"
      using noClient by (simp add: run_def generateCompositeImage_def await_def)
    with Inl show ?thesis by (rule measure)
  next
    case (Inr dims)
    obtain ow oh where dims: "dims = (ow, oh)" by (cases dims)
    note m = Inr[unfolded dims]
    show ?thesis
    proof (cases "resizeImage w d MAX_DIMENSION")
      case (Inl e)
      then have "run = ([NewGoogleGenAI, GetImageDimensions c, ResizeImage d MAX_DIMENSION], Inl e)"
        using noClient m by (simp add: run_def generateCompositeImage_def await_def)
      with m Inl show ?thesis by (rule resizeDesign)
    next
      case rdOk: (Inr rd)
      show ?thesis
      proof (cases "resizeImage w c MAX_DIMENSION")
        case (Inl e)
        then have "run = ([NewGoogleGenAI, GetImageDimensions c, ResizeImage d MAX_DIMENSION,
               ResizeImage c MAX_DIMENSION], Inl e)"
          using noClient m rdOk by (simp add: run_def generateCompositeImage_def await_def)
        with m rdOk Inl show ?thesis by (rule resizeContext)
      next
        case rcOk: (Inr rc)
        show ?thesis
        proof (cases "fileToPart w rc")
          case (Inl e)
          then have "run = ([NewGoogleGenAI, GetImageDimensions c, ResizeImage d MAX_DIMENSION,
               ResizeImage c MAX_DIMENSION, FileToPart rc], Inl e)"
            using noClient m rdOk rcOk by (simp add: run_def generateCompositeImage_def await_def)
          with m rdOk rcOk Inl show ?thesis by (rule contextPart)
        next
          case cpOk: (Inr cp)
          show ?thesis
          proof (cases "generateContent w (descriptionRequest cp)")
            case (Inl e)
            then have "run = ([NewGoogleGenAI, GetImageDimensions c, ResizeImage d MAX_DIMENSION,
               ResizeImage c MAX_DIMENSION, FileToPart rc,
               GenerateContent (descriptionRequest cp)], Inl descriptionError)"
              using noClient m rdOk rcOk cpOk
              by (simp add: run_def generateCompositeImage_def await_def descriptionError_def)
            with m rdOk rcOk cpOk Inl show ?thesis by (rule describe)
          next
            case drOk: (Inr dr)
            show ?thesis
            proof (cases "fileToPart w rd")
              case (Inl e)
              then have "run = ([NewGoogleGenAI, GetImageDimensions c, ResizeImage d MAX_DIMENSION,
               ResizeImage c MAX_DIMENSION, FileToPart rc,
               GenerateContent (descriptionRequest cp), FileToPart rd], Inl e)"
                using noClient m rdOk rcOk cpOk drOk
                by (simp add: run_def generateCompositeImage_def await_def)
              with m rdOk rcOk cpOk drOk Inl show ?thesis by (rule designPart)
            next
              case dpOk: (Inr dp)
              show ?thesis
              proof (cases "generateContent w (compositionRequest dp cp (responseText dr))")
                case (Inl e)
                then have "run = ([NewGoogleGenAI, GetImageDimensions c, ResizeImage d MAX_DIMENSION,
               ResizeImage c MAX_DIMENSION, FileToPart rc,
               GenerateContent (descriptionRequest cp), FileToPart rd,
               GenerateContent (compositionRequest dp cp (responseText dr))], Inl e)"
                  using noClient m rdOk rcOk cpOk drOk dpOk
                  by (simp add: run_def generateCompositeImage_def await_def)
                with m rdOk rcOk cpOk drOk dpOk Inl show ?thesis by (rule compose)
              next
                case respOk: (Inr resp)
                show ?thesis
                proof (cases "imagePartFromResponse resp")
                  case None
                  then have "run = ([NewGoogleGenAI, GetImageDimensions c, ResizeImage d MAX_DIMENSION,
               ResizeImage c MAX_DIMENSION, FileToPart rc,
               GenerateContent (descriptionRequest cp), FileToPart rd,
               GenerateContent (compositionRequest dp cp (responseText dr))],
              Inl noImageError)"
                    using noClient m rdOk rcOk cpOk drOk dpOk respOk
                    by (simp add: run_def generateCompositeImage_def await_def noImageError_def)
                  with m rdOk rcOk cpOk drOk dpOk respOk None show ?thesis by (rule noImage)
                next
                  case pOk: (Some p)
                  from imagePart_inlineData[OF pOk] obtain b where b: "inlineData p = Some b"
                    by auto
                  show ?thesis
                  proof (cases "data b")
                    case None
                    then have "run = ([NewGoogleGenAI, GetImageDimensions c, ResizeImage d MAX_DIMENSION,
               ResizeImage c MAX_DIMENSION, FileToPart rc,
               GenerateContent (descriptionRequest cp), FileToPart rd,
               GenerateContent (compositionRequest dp cp (responseText dr))],
              Inl TypeError)"
                      using noClient m rdOk rcOk cpOk drOk dpOk respOk pOk b
                      by (simp add: run_def generateCompositeImage_def await_def)
                    with m rdOk rcOk cpOk drOk dpOk respOk pOk b None show ?thesis
                      by (rule noData)
                  next
                    case datOk: (Some dat)
                    show ?thesis
                    proof (rule crop[OF m rdOk rcOk cpOk drOk dpOk respOk pOk b datOk refl])
                      show "run = ([NewGoogleGenAI, GetImageDimensions c, ResizeImage d MAX_DIMENSION,
               ResizeImage c MAX_DIMENSION, FileToPart rc,
               GenerateContent (descriptionRequest cp), FileToPart rd,
               GenerateContent (compositionRequest dp cp (responseText dr)),
               CropToOriginalAspectRatio
                 (''data:'' @ (case mimeType b of None \<Rightarrow> ''undefined'' | Some m \<Rightarrow> m)
                  @ '';base64,'' @ dat)
                 (Num (of_nat ow)) (Num (of_nat oh)) MAX_DIMENSION],
              cropToOriginalAspectRatio w
         (''data:'' @ (case mimeType b of None \<Rightarrow> ''undefined'' | Some m \<Rightarrow> m)
          @ '';base64,'' @ dat)
         (Num (of_nat ow)) (Num (of_nat oh)) MAX_DIMENSION)"
                        using noClient m rdOk rcOk cpOk drOk dpOk respOk pOk b datOk
                        by (simp add: run_def generateCompositeImage_def await_def Let_def
                                 split: sum.splits)
                    qed
                  qed
                qed
              qed
            qed
          qed
        qed
      qed
    qed
  qed
qed

section \<open>Runs in the example worlds\<close>

lemma MAX_DIMENSION_dims:
  "setDimension 300 MAX_DIMENSION = 1024" "setDimension 150 MAX_DIMENSION = 1024"
  using setDimension_floor[of 1024] by (simp_all add: MAX_DIMENSION_def)

lemma example_resize:
  assumes "readAsDataURL w = exampleReader" and "loadImage w = exampleLoader cs"
    and "getContext w 1024 1024" and "encodes w = (\<lambda>c. True)"
  obtains rf where "resizeImage w f MAX_DIMENSION = Inr rf"
    and "fileToPart w rf = Inr examplePart"
proof -
  define r where "r = ''data:'' @ fileType f @ '';base64,''
           @ (case bytes f of Uploaded s \<Rightarrow> s | Encoded c t q \<Rightarrow> ''/9j/'')"
  have rd: "readAsDataURL w f = Some r" by (simp add: assms(1) exampleReader_def r_def)
  have ne: "r \<noteq> []" by (simp add: r_def)
  have "\<exists>nw nh. loadImage w r = Some (nw, nh)"
    by (cases cs) (simp add: assms(2) exampleLoader_def)
  then obtain nw nh where ld: "loadImage w r = Some (nw, nh)" by blast
  define cv where "cv = paddedCanvas (Image r nw nh) MAX_DIMENSION
                     (contentBox (Num (of_nat nw)) (Num (of_nat nh)) MAX_DIMENSION)"
  have dims: "width cv = 1024" "height cv = 1024"
    by (simp_all add: cv_def paddedCanvas_def MAX_DIMENSION_dims split: prod.splits)
  have blob: "toBlob w cv ''image/jpeg'' quality = Some (Encoded cv ''image/jpeg'' quality)"
    by (simp add: toBlob_def dims assms(4))
  define rf where "rf = \<lparr>name = name f, fileType = ''image/jpeg'', lastModified = now w,
                           bytes = Encoded cv ''image/jpeg'' quality\<rparr>"
  have 1: "resizeImage w f MAX_DIMENSION = Inr rf"
    using resizeImage_box[OF rd ne ld, of MAX_DIMENSION] assms(3) blob
    by (simp add: MAX_DIMENSION_dims cv_def[symmetric] rf_def)
  have "readAsDataURL w rf = Some ''data:image/jpeg;base64,/9j/''"
    by (simp add: assms(1) exampleReader_def rf_def)
  then have 2: "fileToPart w rf = Inr examplePart"
    by (simp add: fileToPart_def examplePart_def)
  from 1 2 show ?thesis by (rule that)
qed

lemma example_measure:
  assumes "readAsDataURL w = exampleReader" and "loadImage w = exampleLoader (a, b)"
  shows "getImageDimensions w contextFile = Inr (a, b)"
  by (simp add: getImageDimensions_def assms exampleReader_def exampleLoader_def contextFile_def)


lemma model_descriptionRequest [simp]:
  "model (descriptionRequest cp) = ''gemini-2.5-flash-lite''"
  by (simp add: descriptionRequest_def)

lemma model_compositionRequest [simp]:
  "model (compositionRequest dp cp s) = ''gemini-2.5-flash-image''"
  by (simp add: compositionRequest_def)

lemma example_generateContent [simp]:
  "generateContent (exampleWorld cs da ca) (descriptionRequest cp) = da"
  "generateContent (exampleWorld cs da ca) (compositionRequest dp cp s) = ca"
  by (simp_all add: exampleWorld_def)

lemma example_run:
  assumes "newGoogleGenAI w = None" and "readAsDataURL w = exampleReader"
    and "loadImage w = exampleLoader (a, b)" and "getContext w 1024 1024"
    and "encodes w = (\<lambda>c. True)"
  obtains rd rc where
    "generateCompositeImage w designFile dd contextFile cd =
       (case generateContent w (descriptionRequest examplePart) of
          Inl e \<Rightarrow>
            ([NewGoogleGenAI, GetImageDimensions contextFile,
              ResizeImage designFile MAX_DIMENSION, ResizeImage contextFile MAX_DIMENSION,
              FileToPart rc, GenerateContent (descriptionRequest examplePart)],
             Inl descriptionError)
        | Inr dr \<Rightarrow>
            (case generateContent w
                    (compositionRequest examplePart examplePart (responseText dr)) of
               Inl e \<Rightarrow>
                 ([NewGoogleGenAI, GetImageDimensions contextFile,
                   ResizeImage designFile MAX_DIMENSION, ResizeImage contextFile MAX_DIMENSION,
                   FileToPart rc, GenerateContent (descriptionRequest examplePart),
                   FileToPart rd,
                   GenerateContent
                     (compositionRequest examplePart examplePart (responseText dr))],
                  Inl e)
             | Inr resp \<Rightarrow>
                 (case imagePartFromResponse resp of
                    None \<Rightarrow>
                      ([NewGoogleGenAI, GetImageDimensions contextFile,
                        ResizeImage designFile MAX_DIMENSION,
                        ResizeImage contextFile MAX_DIMENSION,
                        FileToPart rc, GenerateContent (descriptionRequest examplePart),
                        FileToPart rd,
                        GenerateContent
                          (compositionRequest examplePart examplePart (responseText dr))],
                       Inl noImageError)
                  | Some p \<Rightarrow>
                      (case data (the (inlineData p)) of
                         None \<Rightarrow>
                           ([NewGoogleGenAI, GetImageDimensions contextFile,
                             ResizeImage designFile MAX_DIMENSION,
                             ResizeImage contextFile MAX_DIMENSION,
                             FileToPart rc, GenerateContent (descriptionRequest examplePart),
                             FileToPart rd,
                             GenerateContent
                               (compositionRequest examplePart examplePart (responseText dr))],
                            Inl TypeError)
                       | Some dat \<Rightarrow>
                           ([NewGoogleGenAI, GetImageDimensions contextFile,
                             ResizeImage designFile MAX_DIMENSION,
                             ResizeImage contextFile MAX_DIMENSION,
                             FileToPart rc, GenerateContent (descriptionRequest examplePart),
                             FileToPart rd,
                             GenerateContent
                               (compositionRequest examplePart examplePart (responseText dr)),
                             CropToOriginalAspectRatio
                               (''data:''
                                @ (case mimeType (the (inlineData p)) of
                                     None \<Rightarrow> ''undefined'' | Some m \<Rightarrow> m)
                                @ '';base64,'' @ dat)
                               (Num (of_nat a)) (Num (of_nat b)) MAX_DIMENSION],
                            cropToOriginalAspectRatio w
                              (''data:''
                               @ (case mimeType (the (inlineData p)) of
                                    None \<Rightarrow> ''undefined'' | Some m \<Rightarrow> m)
                               @ '';base64,'' @ dat)
                              (Num (of_nat a)) (Num (of_nat b)) MAX_DIMENSION)))))"
proof -
  obtain rd where rd: "resizeImage w designFile MAX_DIMENSION = Inr rd"
    "fileToPart w rd = Inr examplePart"
    using assms(2-5) by (rule example_resize)
  obtain rc where rc: "resizeImage w contextFile MAX_DIMENSION = Inr rc"
    "fileToPart w rc = Inr examplePart"
    using assms(2-5) by (rule example_resize)
  note m = example_measure[OF assms(2,3)]
  have inl: "\<And>resp p. imagePartFromResponse resp = Some p \<Longrightarrow> \<exists>bl. inlineData p = Some bl"
    using imagePart_inlineData by blast
  show ?thesis
    by (rule that[of rc rd])
       (auto simp: generateCompositeImage_def await_def assms(1) m rd rc descriptionError_def
                   noImageError_def Let_def
             split: sum.splits option.splits dest: inl)
qed

lemma noInlineData_imagePart:
  "noInlineData r \<Longrightarrow> imagePartFromResponse r = None"
  by (auto simp: noInlineData_def imagePartFromResponse_def hasInlineData_def find_None_iff
                 list_ex_iff
           split: option.splits list.splits)


lemma crop_1920_1080:
  assumes "loadImage w u = Some (sw, sh)"
  shows "cropToOriginalAspectRatio w u (Num 1920) (Num 1080) MAX_DIMENSION =
     (if getContext w 1024 576
      then Inr (toDataURL w
             (croppedCanvas (Image u sw sh) 1024 576 (Num 0, Num 224, Num 1024, Num 576))
             ''image/jpeg'' quality)
      else Inl (Error ''Could not get canvas context for cropping.''))"
proof -
  have d1: "setDimension 300 (Num 1024) = 1024"
    using setDimension_floor[of 1024 300] by simp
  have d2: "setDimension 150 (Num 576) = 576"
    using setDimension_floor[of 576 150] by simp
  show ?thesis
    using crop_box[OF assms, of "Num 1920" "Num 1080" "Num 1024"]
    by (simp add: MAX_DIMENSION_def contentBox_1920_1080 d1 d2)
qed

lemma example_crop_1920_1080:
  "cropToOriginalAspectRatio (exampleWorld cs da ca) u (Num 1920) (Num 1080) MAX_DIMENSION =
     Inr ''data:image/jpeg;base64,/9j/''"
proof -
  have "\<exists>sw sh. loadImage (exampleWorld cs da ca) u = Some (sw, sh)"
    by (cases cs) (simp add: exampleWorld_def exampleLoader_def)
  then obtain sw sh where "loadImage (exampleWorld cs da ca) u = Some (sw, sh)" by blast
  from crop_1920_1080[OF this] show ?thesis
    by (simp add: exampleWorld_def toDataURL_def croppedCanvas_def)
qed

lemma example_success:
  "\<exists>rd rc.
     generateCompositeImage
       (exampleWorld (1920, 1080) (answer t []) (answer ''Done.'' [[pngPart]]))
       designFile dd contextFile cd =
       ([NewGoogleGenAI, GetImageDimensions contextFile,
         ResizeImage designFile MAX_DIMENSION, ResizeImage contextFile MAX_DIMENSION,
         FileToPart rc, GenerateContent (descriptionRequest examplePart),
         FileToPart rd,
         GenerateContent (compositionRequest examplePart examplePart (Some t)),
         CropToOriginalAspectRatio ''data:image/png;base64,iVBORw0KGgo=''
           (Num 1920) (Num 1080) MAX_DIMENSION],
        Inr ''data:image/jpeg;base64,/9j/'')"
proof -
  let ?w = "exampleWorld (1920, 1080) (answer t []) (answer ''Done.'' [[pngPart]])"
  obtain rd rc where
    "generateCompositeImage ?w designFile dd contextFile cd =
       ([NewGoogleGenAI, GetImageDimensions contextFile,
         ResizeImage designFile MAX_DIMENSION, ResizeImage contextFile MAX_DIMENSION,
         FileToPart rc, GenerateContent (descriptionRequest examplePart),
         FileToPart rd,
         GenerateContent (compositionRequest examplePart examplePart (Some t)),
         CropToOriginalAspectRatio ''data:image/png;base64,iVBORw0KGgo=''
           (Num 1920) (Num 1080) MAX_DIMENSION],
        cropToOriginalAspectRatio ?w ''data:image/png;base64,iVBORw0KGgo=''
           (Num 1920) (Num 1080) MAX_DIMENSION)"
    by (rule example_run[of ?w 1920 1080 dd cd])
       (simp_all add: exampleWorld_def answer_def imagePartFromResponse_def pngPart_def)
  then show ?thesis by (simp add: example_crop_1920_1080)
qed

section \<open>The content box\<close>

lemma fl_le:
  assumes "0 \<le> x" and "x \<le> y" and "fl y = y"
  shows "fl x \<le> y"
  using fl_mono[OF assms(1,2)] assms(3) by simp

lemma fl_ge:
  assumes "0 \<le> y" and "y \<le> x" and "fl y = y"
  shows "y \<le> fl x"
  using fl_mono[OF assms(1,2)] assms(3) by simp

lemma contentBox_formula:
  assumes "0 < nh"
  shows "contentBox (Num (of_nat nw)) (Num (of_nat nh)) (Num T) =
     (if 1 < fl (of_nat nw / of_nat nh)
      then (Num (fl (fl (T - T) / 2)),
            Num (fl (fl (T - fl (T / fl (of_nat nw / of_nat nh))) / 2)),
            Num T,
            Num (fl (T / fl (of_nat nw / of_nat nh))))
      else (Num (fl (fl (T - fl (T * fl (of_nat nw / of_nat nh))) / 2)),
            Num (fl (fl (T - T) / 2)),
            Num (fl (T * fl (of_nat nw / of_nat nh))),
            Num T))"
  using assms by (auto simp: contentBox_def Let_def)

lemma contentBox_bounds:
  assumes "0 < nh" and "0 \<le> T" and "fl T = T"
  obtains x y bw bh where
    "contentBox (Num (of_nat nw)) (Num (of_nat nh)) (Num T) = (Num x, Num y, Num bw, Num bh)"
    and "0 \<le> bw" and "bw \<le> T" and "0 \<le> bh" and "bh \<le> T" and "bw = T \<or> bh = T"
proof (cases "1 < fl (of_nat nw / of_nat nh)")
  case True
  define a where "a = fl (of_nat nw / of_nat nh)"
  have a1: "1 < a" using True by (simp add: a_def)
  have q: "0 \<le> T / a" "T / a \<le> T"
    using a1 assms(2) by (simp_all add: pos_divide_le_eq mult_le_cancel_left1)
  show ?thesis
  proof (rule that)
    show "contentBox (Num (of_nat nw)) (Num (of_nat nh)) (Num T) =
            (Num (fl (fl (T - T) / 2)), Num (fl (fl (T - fl (T / a)) / 2)), Num T,
             Num (fl (T / a)))"
      using True by (simp add: contentBox_formula[OF assms(1)] a_def)
    show "0 \<le> T" by fact
    show "T \<le> T" by simp
    show "0 \<le> fl (T / a)" using q(1) by (rule fl_nonneg)
    show "fl (T / a) \<le> T" using q assms(3) by (rule fl_le)
    show "T = T \<or> fl (T / a) = T" by simp
  qed
next
  case False
  define a where "a = fl (of_nat nw / of_nat nh)"
  have a1: "a \<le> 1" using False by (simp add: a_def)
  have a0: "0 \<le> a" unfolding a_def by (rule fl_nonneg) simp
  have q: "0 \<le> T * a" "T * a \<le> T"
    using a0 a1 assms(2) by (simp_all add: mult_left_le)
  show ?thesis
  proof (rule that)
    show "contentBox (Num (of_nat nw)) (Num (of_nat nh)) (Num T) =
            (Num (fl (fl (T - fl (T * a)) / 2)), Num (fl (fl (T - T) / 2)), Num (fl (T * a)),
             Num T)"
      using False by (simp add: contentBox_formula[OF assms(1)] a_def)
    show "0 \<le> T" by fact
    show "T \<le> T" by simp
    show "0 \<le> fl (T * a)" using q(1) by (rule fl_nonneg)
    show "fl (T * a) \<le> T" using q assms(3) by (rule fl_le)
    show "fl (T * a) = T \<or> T = T" by simp
  qed
qed


lemma resizeImage_Inr:
  assumes "readAsDataURL w f = Some r" and "loadImage w r = Some (nw, nh)"
    and "resizeImage w f t = Inr out"
  shows "out = \<lparr>name = name f, fileType = ''image/jpeg'', lastModified = now w,
                 bytes = Encoded (paddedCanvas (Image r nw nh) t
                                    (contentBox (Num (of_nat nw)) (Num (of_nat nh)) t))
                           ''image/jpeg'' quality\<rparr>"
proof (cases "r = []")
  case True
  with assms(1,3) show ?thesis by (simp add: resizeImage_def)
next
  case False
  from resizeImage_box[OF assms(1) False assms(2), of t] assms(3) show ?thesis
    by (auto simp: toBlob_def split: if_splits option.splits)
qed

lemma example_resize_context:
  "resizeImage (exampleWorld (1920, 1080) da ca) contextFile (Num 1024) =
     Inr \<lparr>name = ''room.png'', fileType = ''image/jpeg'', lastModified = 0,
          bytes = Encoded
                    \<lparr>width = 1024, height = 1024,
                     drawn = [FillRect ''black'' (Num 0) (Num 0) (Num 1024) (Num 1024),
                              DrawImage (Image ''data:image/png;base64,Q09OVEVYVA=='' 1920 1080)
                                (Num 0) (Num 224) (Num 1024) (Num 576)]\<rparr>
                    ''image/jpeg'' quality\<rparr>"
proof -
  let ?w = "exampleWorld (1920, 1080) da ca"
  have rd: "readAsDataURL ?w contextFile = Some ''data:image/png;base64,Q09OVEVYVA==''"
    by (simp add: exampleWorld_def exampleReader_def contextFile_def)
  have ld: "loadImage ?w ''data:image/png;base64,Q09OVEVYVA=='' = Some (1920, 1080)"
    by (simp add: exampleWorld_def exampleLoader_def)
  have d: "setDimension 300 (Num 1024) = 1024" "setDimension 150 (Num 1024) = 1024"
    using setDimension_floor[of 1024] by simp_all
  from resizeImage_box[OF rd _ ld, of "Num 1024"] show ?thesis
    by (simp add: d contentBox_1920_1080 paddedCanvas_def toBlob_def exampleWorld_def
                  contextFile_def)
qed

section \<open>Rounding in the content box\<close>

lemma div_ge_one_le:
  fixes c a :: real
  assumes "0 \<le> c" and "1 \<le> a"
  shows "c / a \<le> c"
proof -
  have "c \<le> c * a" using assms by (simp add: mult_le_cancel_left1)
  then show ?thesis using assms(2) by (simp add: pos_divide_le_eq)
qed

lemma ratio_gt_one:
  assumes "0 < nh" and "nh < nw" and "nh \<le> 2 ^ 52"
  shows "1 < fl (real nw / real nh)"
proof -
  define z :: real where "z = of_int (2 ^ 52 + 1) * 2 powi (- 52)"
  have zv: "z = 1 + 1 / 2 ^ 52" by (simp add: z_def)
  have fz: "fl z = z" unfolding z_def by (rule fl_exact) simp
  have "real nh + 1 \<le> real nw" using assms(2) by linarith
  then have "(real nh + 1) / real nh \<le> real nw / real nh"
    using assms(1) by (simp add: divide_right_mono)
  moreover have "(real nh + 1) / real nh = 1 + 1 / real nh"
    using assms(1) by (simp add: field_simps)
  ultimately have c1: "1 + 1 / real nh \<le> real nw / real nh" by simp
  have "real nh \<le> 2 ^ 52" using assms(3) by (metis of_nat_le_iff of_nat_numeral of_nat_power)
  then have c2: "1 / (2 ^ 52 :: real) \<le> 1 / real nh" using assms(1) by (simp add: frac_le)
  have z1: "1 < z" by (simp add: zv)
  from c1 c2 have zle: "z \<le> real nw / real nh" unfolding zv by linarith
  have z0: "0 \<le> z" using z1 by simp
  from z0 zle fz have "z \<le> fl (real nw / real nh)" by (rule fl_ge)
  with z1 show ?thesis by linarith
qed

lemma landscape_close:
  fixes r T :: real
  assumes "0 < r" and "1 < fl r" and "0 \<le> T"
  shows "\<bar>fl (T / fl r) - T / r\<bar> \<le> 2 * T * 2 powi (- 53)"
proof -
  define e :: real where "e = 2 powi (- 53)"
  define a where "a = fl r"
  have e0: "0 \<le> e" by (simp add: e_def)
  have a1: "1 < a" using assms(2) by (simp add: a_def)
  have d1: "\<bar>a - r\<bar> \<le> r * e" using fl_error[of r] assms(1) by (simp add: a_def e_def)
  have "T / a - T / r = T * (r - a) / (a * r)"
    using a1 assms(1) by (simp add: field_simps)
  then have "\<bar>T / a - T / r\<bar> = T * \<bar>a - r\<bar> / (a * r)"
    using a1 assms(1,3) by (simp add: abs_mult abs_minus_commute)
  also have "\<dots> \<le> T * (r * e) / (a * r)"
    using a1 assms(1,3) d1 by (intro divide_right_mono mult_left_mono) simp_all
  also have "\<dots> = T * e / a" using assms(1) by simp
  also have "\<dots> \<le> T * e" using a1 assms(3) e0 by (intro div_ge_one_le) simp_all
  finally have s1: "\<bar>T / a - T / r\<bar> \<le> T * e" .
  have "\<bar>fl (T / a) - T / a\<bar> \<le> \<bar>T / a\<bar> * e" using fl_error[of "T / a"] by (simp add: e_def)
  also have "\<bar>T / a\<bar> = T / a" using a1 assms(3) by simp
  also have "T / a * e \<le> T * e"
    using a1 assms(3) e0 by (intro mult_right_mono div_ge_one_le) simp_all
  finally have s2: "\<bar>fl (T / a) - T / a\<bar> \<le> T * e" .
  from s1 s2 have "\<bar>fl (T / a) - T / r\<bar> \<le> 2 * T * e" by linarith
  then show ?thesis by (simp add: a_def e_def)
qed

lemma portrait_close:
  fixes r T :: real
  assumes "0 \<le> r" and "r \<le> 1" and "0 \<le> T"
  shows "\<bar>fl (T * fl r) - T * r\<bar> \<le> 2 * T * 2 powi (- 53)"
proof -
  define e :: real where "e = 2 powi (- 53)"
  define a where "a = fl r"
  have e0: "0 \<le> e" by (simp add: e_def)
  have a0: "0 \<le> a" unfolding a_def using assms(1) by (rule fl_nonneg)
  have a1: "a \<le> 1" unfolding a_def using assms(1,2) fl_one by (rule fl_le)
  have "\<bar>a - r\<bar> \<le> r * e" using fl_error[of r] assms(1) by (simp add: a_def e_def)
  also have "\<dots> \<le> 1 * e" using assms(2) e0 by (intro mult_right_mono) simp_all
  finally have d1: "\<bar>a - r\<bar> \<le> e" by simp
  have "\<bar>T * a - T * r\<bar> = T * \<bar>a - r\<bar>"
    using assms(3) by (simp add: right_diff_distrib[symmetric] abs_mult)
  also have "\<dots> \<le> T * e" using d1 assms(3) by (intro mult_left_mono) simp_all
  finally have s1: "\<bar>T * a - T * r\<bar> \<le> T * e" .
  have "\<bar>fl (T * a) - T * a\<bar> \<le> \<bar>T * a\<bar> * e"
    using fl_error[of "T * a"] by (simp add: e_def)
  also have "\<bar>T * a\<bar> = T * a" using a0 assms(3) by simp
  also have "T * a * e \<le> T * 1 * e"
    using a0 a1 assms(3) e0 by (intro mult_right_mono mult_left_mono) simp_all
  finally have s2: "\<bar>fl (T * a) - T * a\<bar> \<le> T * e" by simp
  from s1 s2 have "\<bar>fl (T * a) - T * r\<bar> \<le> 2 * T * e" by linarith
  then show ?thesis by (simp add: a_def e_def)
qed

lemma floor_tolerance:
  fixes c d :: real and P q :: nat
  assumes "0 \<le> c" and "\<bar>c - real P / real q\<bar> \<le> d" and "0 < q" and "d * real q < 1"
  shows "nat \<lfloor>c\<rfloor> * q \<le> P \<and> P \<le> (nat \<lfloor>c\<rfloor> + 1) * q"
proof -
  define H where "H = nat \<lfloor>c\<rfloor>"
  have q0: "0 < real q" using assms(3) by simp
  have H1: "real H \<le> c" using assms(1) by (simp add: H_def)
  have H2: "c < real H + 1" using assms(1) by (simp add: H_def)
  have up: "c \<le> real P / real q + d" and dn: "real P / real q - d \<le> c"
    using assms(2) by linarith+
  have "real H * real q \<le> c * real q" using H1 q0 by (simp add: mult_right_mono)
  also have "\<dots> \<le> (real P / real q + d) * real q"
    using up q0 by (simp add: mult_right_mono)
  also have "\<dots> = real P + d * real q" using q0 by (simp add: distrib_right)
  also have "\<dots> < real P + 1" using assms(4) by simp
  finally have "real (H * q) < real (P + 1)" by simp
  then have "H * q < P + 1" by (simp only: of_nat_less_iff)
  then have l: "H * q \<le> P" by simp
  have "real P - 1 < real P - d * real q" using assms(4) by simp
  also have "\<dots> = (real P / real q - d) * real q" using q0 by (simp add: left_diff_distrib)
  also have "\<dots> \<le> c * real q" using dn q0 by (simp add: mult_right_mono)
  also have "\<dots> < (real H + 1) * real q" using H2 q0 by (simp add: mult_strict_right_mono)
  finally have "real P - 1 < (real H + 1) * real q" .
  then have "real P < (real H + 1) * real q + 1" by linarith
  then have "real P < real ((H + 1) * q + 1)" by (simp add: algebra_simps)
  then have "P < (H + 1) * q + 1" by (simp only: of_nat_less_iff)
  then have "P \<le> (H + 1) * q" by simp
  with l show ?thesis by (simp add: H_def)
qed

lemma tolerance_bound:
  fixes T :: real
  assumes "0 \<le> T" and "T \<le> 2 ^ 20" and "q < 2 ^ 32"
  shows "2 * T * 2 powi (- 53) * real q < 1"
proof -
  have qb: "real q < 2 ^ 32" using assms(3) by (metis of_nat_less_iff of_nat_numeral of_nat_power)
  have e: "(2::real) powi (- 53) = 1 / 2 ^ 53" by (simp add: power_int_minus_divide)
  have "2 * T * real q \<le> 2 * 2 ^ 20 * real q"
    using assms(1,2) by (intro mult_right_mono mult_left_mono) simp_all
  also have "\<dots> < 2 * 2 ^ 20 * 2 ^ 32" using qb by simp
  also have "\<dots> = (2 ^ 53 :: real)" by simp
  finally have "2 * T * real q < 2 ^ 53" .
  then have "2 * T * real q / 2 ^ 53 < 1" by simp
  then show ?thesis by (simp add: e)
qed

lemma roundtrip_box:
  assumes "0 < nw" and "nw < 2 ^ 32" and "0 < nh" and "nh < 2 ^ 32" and "t \<le> 2 ^ 20"
  obtains x y bw bh where
    "contentBox (Num (of_nat nw)) (Num (of_nat nh)) (Num (of_nat t)) =
       (Num x, Num y, Num bw, Num bh)"
    and "0 \<le> bw" and "bw \<le> of_nat t" and "0 \<le> bh" and "bh \<le> of_nat t"
    and "(nat \<lfloor>bw\<rfloor> = t \<and> nat \<lfloor>bh\<rfloor> * nw \<le> t * nh \<and> t * nh \<le> (nat \<lfloor>bh\<rfloor> + 1) * nw) \<or>
         (nat \<lfloor>bh\<rfloor> = t \<and> nat \<lfloor>bw\<rfloor> * nh \<le> t * nw \<and> t * nw \<le> (nat \<lfloor>bw\<rfloor> + 1) * nh)"
proof -
  define T where "T = real t"
  define r where "r = real nw / real nh"
  have T0: "0 \<le> T" by (simp add: T_def)
  have Tb: "T \<le> 2 ^ 20" unfolding T_def
    using assms(5) by (metis of_nat_le_iff of_nat_numeral of_nat_power)
  have "t < 2 ^ 53" using assms(5) by simp
  then have ft: "fl T = T" unfolding T_def by (rule fl_of_nat)
  have r0: "0 < r" using assms(1,3) by (simp add: r_def)
  note tol = tolerance_bound[OF T0 Tb]
  have fT: "nat \<lfloor>T\<rfloor> = t" by (simp add: T_def)
  show ?thesis
  proof (cases "nh < nw")
    case True
    have "nh \<le> 2 ^ 52" using assms(4) by simp
    with assms(3) True have a1: "1 < fl r" unfolding r_def by (intro ratio_gt_one)
    define c where "c = fl (T / fl r)"
    have q: "0 \<le> T / fl r" "T / fl r \<le> T"
      using a1 T0 by (simp_all add: div_ge_one_le)
    have c0: "0 \<le> c" unfolding c_def using q(1) by (rule fl_nonneg)
    have cT: "c \<le> T" unfolding c_def using q ft by (rule fl_le)
    have "T / r = real (t * nh) / real nw"
      using assms(1,3) by (simp add: T_def r_def)
    with landscape_close[OF r0 a1 T0]
    have "\<bar>c - real (t * nh) / real nw\<bar> \<le> 2 * T * 2 powi (- 53)" by (simp add: c_def)
    from floor_tolerance[OF c0 this assms(1) tol[OF assms(2)]]
    have tolr: "nat \<lfloor>c\<rfloor> * nw \<le> t * nh \<and> t * nh \<le> (nat \<lfloor>c\<rfloor> + 1) * nw" .
    show ?thesis
    proof (rule that)
      show "contentBox (Num (of_nat nw)) (Num (of_nat nh)) (Num (of_nat t)) =
              (Num (fl (fl (T - T) / 2)), Num (fl (fl (T - c) / 2)), Num T, Num c)"
        using a1 by (simp add: contentBox_formula[OF assms(3)] r_def c_def T_def)
      show "0 \<le> T" by fact
      show "T \<le> of_nat t" by (simp add: T_def)
      show "0 \<le> c" by fact
      show "c \<le> of_nat t" using cT by (simp add: T_def)
      show "(nat \<lfloor>T\<rfloor> = t \<and> nat \<lfloor>c\<rfloor> * nw \<le> t * nh \<and> t * nh \<le> (nat \<lfloor>c\<rfloor> + 1) * nw) \<or>
            (nat \<lfloor>c\<rfloor> = t \<and> nat \<lfloor>T\<rfloor> * nh \<le> t * nw \<and> t * nw \<le> (nat \<lfloor>T\<rfloor> + 1) * nh)"
        using fT tolr by blast
    qed
  next
    case False
    then have r1: "r \<le> 1" using assms(3) by (simp add: r_def)
    have a1: "fl r \<le> 1" using r0 r1 fl_one by (intro fl_le) simp_all
    have a0: "0 \<le> fl r" using r0 by (intro fl_nonneg) simp
    define c where "c = fl (T * fl r)"
    have q: "0 \<le> T * fl r" "T * fl r \<le> T"
      using a0 a1 T0 by (simp_all add: mult_left_le)
    have c0: "0 \<le> c" unfolding c_def using q(1) by (rule fl_nonneg)
    have cT: "c \<le> T" unfolding c_def using q ft by (rule fl_le)
    have "T * r = real (t * nw) / real nh"
      using assms(1,3) by (simp add: T_def r_def)
    with portrait_close[OF _ r1 T0] r0
    have "\<bar>c - real (t * nw) / real nh\<bar> \<le> 2 * T * 2 powi (- 53)" by (simp add: c_def)
    from floor_tolerance[OF c0 this assms(3) tol[OF assms(4)]]
    have tolr: "nat \<lfloor>c\<rfloor> * nh \<le> t * nw \<and> t * nw \<le> (nat \<lfloor>c\<rfloor> + 1) * nh" .
    show ?thesis
    proof (rule that)
      show "contentBox (Num (of_nat nw)) (Num (of_nat nh)) (Num (of_nat t)) =
              (Num (fl (fl (T - c) / 2)), Num (fl (fl (T - T) / 2)), Num c, Num T)"
        using a1 by (simp add: contentBox_formula[OF assms(3)] r_def c_def T_def)
      show "0 \<le> c" by fact
      show "c \<le> of_nat t" using cT by (simp add: T_def)
      show "0 \<le> T" by fact
      show "T \<le> of_nat t" by (simp add: T_def)
      show "(nat \<lfloor>c\<rfloor> = t \<and> nat \<lfloor>T\<rfloor> * nw \<le> t * nh \<and> t * nh \<le> (nat \<lfloor>T\<rfloor> + 1) * nw) \<or>
            (nat \<lfloor>T\<rfloor> = t \<and> nat \<lfloor>c\<rfloor> * nh \<le> t * nw \<and> t * nw \<le> (nat \<lfloor>c\<rfloor> + 1) * nh)"
        using fT tolr by blast
    qed
  qed
qed

lemma fl_half: "fl (1 / 2) = 1 / 2"
  using fl_exact[of 1 "- 1"] by simp

lemma fl_1024th: "fl (1 / 1024) = 1 / 1024"
  using fl_exact[of 1 "- 10"] by simp

lemma fl_2047_2: "fl (2047 / 2) = 2047 / 2"
  using fl_exact[of 2047 "- 1"] by simp

lemma fl_2047_4: "fl (2047 / 4) = 2047 / 4"
  using fl_exact[of 2047 "- 2"] by simp

lemma contentBox_2048_1:
  "contentBox (Num 2048) (Num 1) (Num 1024) = (Num 0, Num (2047 / 4), Num 1024, Num (1 / 2))"
  using contentBox_formula[of 1 2048 1024]
  by (simp add: fl_numeral fl_half fl_zero fl_2047_2 fl_2047_4)

lemma crop_url_cases:
  assumes "cropToOriginalAspectRatio w u ow oh t = Inr url"
  shows "\<exists>cv. url = toDataURL w cv ''image/jpeg'' quality \<and>
              (url = ''data:,'' \<or> isJpegDataUrl url)"
proof (cases "loadImage w u")
  case None
  with assms show ?thesis by (simp add: cropToOriginalAspectRatio_def)
next
  case (Some s)
  obtain sw sh where "s = (sw, sh)" by (cases s)
  with Some have ld: "loadImage w u = Some (sw, sh)" by simp
  have j: "toDataURL w cv ''image/jpeg'' quality = ''data:,'' \<or>
           isJpegDataUrl (toDataURL w cv ''image/jpeg'' quality)" for cv
    by (simp add: toDataURL_def isJpegDataUrl_def)
  from crop_box[OF ld, of ow oh t] assms obtain cv where
    "url = toDataURL w cv ''image/jpeg'' quality"
    by (auto split: prod.splits if_splits)
  with j[of cv] show ?thesis by auto
qed

lemma visible_box:
  assumes "0 < nw" and "0 < nh" and "nw \<le> 1024 * nh" and "nh \<le> 1024 * nw"
  obtains x y bw bh where
    "contentBox (Num (of_nat nw)) (Num (of_nat nh)) (Num 1024) = (Num x, Num y, Num bw, Num bh)"
    and "1 \<le> bw" and "bw \<le> 1024" and "1 \<le> bh" and "bh \<le> 1024"
proof -
  define r where "r = real nw / real nh"
  have r0: "0 < r" using assms(1,2) by (simp add: r_def)
  have f1024: "fl 1024 = 1024" by (simp add: fl_numeral)
  have rhi: "r \<le> 1024"
  proof -
    have "real nw \<le> 1024 * real nh" using assms(3) by (metis of_nat_le_iff of_nat_mult of_nat_numeral)
    then show ?thesis using assms(2) by (simp add: r_def pos_divide_le_eq)
  qed
  have rlo: "1 / 1024 \<le> r"
  proof -
    have "real nh \<le> 1024 * real nw" using assms(4) by (metis of_nat_le_iff of_nat_mult of_nat_numeral)
    then show ?thesis using assms(2) by (simp add: r_def pos_le_divide_eq)
  qed
  have ahi: "fl r \<le> 1024" using r0 rhi f1024 by (intro fl_le) simp_all
  have alo: "1 / 1024 \<le> fl r" using rlo fl_1024th by (intro fl_ge) simp_all
  show ?thesis
  proof (cases "1 < fl r")
    case True
    have q: "1 \<le> 1024 / fl r" "1024 / fl r \<le> 1024"
      using True ahi by (simp_all add: pos_le_divide_eq div_ge_one_le)
    show ?thesis
    proof (rule that)
      show "contentBox (Num (of_nat nw)) (Num (of_nat nh)) (Num 1024) =
              (Num (fl (fl (1024 - 1024) / 2)), Num (fl (fl (1024 - fl (1024 / fl r)) / 2)),
               Num 1024, Num (fl (1024 / fl r)))"
        using True by (simp add: contentBox_formula[OF assms(2)] r_def)
      show "(1::real) \<le> 1024" by simp
      show "(1024::real) \<le> 1024" by simp
      show "1 \<le> fl (1024 / fl r)" using q(1) fl_one by (intro fl_ge) simp_all
      show "fl (1024 / fl r) \<le> 1024" using q f1024 True by (intro fl_le) simp_all
    qed
  next
    case False
    have q: "1 \<le> 1024 * fl r" "1024 * fl r \<le> 1024"
      using False alo by simp_all
    show ?thesis
    proof (rule that)
      show "contentBox (Num (of_nat nw)) (Num (of_nat nh)) (Num 1024) =
              (Num (fl (fl (1024 - fl (1024 * fl r)) / 2)), Num (fl (fl (1024 - 1024) / 2)),
               Num (fl (1024 * fl r)), Num 1024)"
        using False by (simp add: contentBox_formula[OF assms(2)] r_def)
      show "1 \<le> fl (1024 * fl r)" using q(1) fl_one by (intro fl_ge) simp_all
      show "fl (1024 * fl r) \<le> 1024" using q f1024 by (intro fl_le) simp_all
      show "(1::real) \<le> 1024" by simp
      show "(1024::real) \<le> 1024" by simp
    qed
  qed
qed

lemma crop_visible_jpeg:
  assumes "0 < nw" and "0 < nh" and "nw \<le> 1024 * nh" and "nh \<le> 1024 * nw"
    and "cropToOriginalAspectRatio w u (Num (of_nat nw)) (Num (of_nat nh)) MAX_DIMENSION =
           Inr url"
  shows "isJpegDataUrl url"
proof (cases "loadImage w u")
  case None
  with assms(5) show ?thesis by (simp add: cropToOriginalAspectRatio_def)
next
  case (Some s)
  obtain sw sh where "s = (sw, sh)" by (cases s)
  with Some have ld: "loadImage w u = Some (sw, sh)" by simp
  obtain x y bw bh where box:
    "contentBox (Num (of_nat nw)) (Num (of_nat nh)) (Num 1024) = (Num x, Num y, Num bw, Num bh)"
    and b: "1 \<le> bw" "bw \<le> 1024" "1 \<le> bh" "bh \<le> 1024"
    using assms(1-4) by (rule visible_box)
  have dw: "setDimension 300 (Num bw) = nat \<lfloor>bw\<rfloor>"
    using b(1,2) by (intro setDimension_floor) simp_all
  have dh: "setDimension 150 (Num bh) = nat \<lfloor>bh\<rfloor>"
    using b(3,4) by (intro setDimension_floor) simp_all
  have pos: "nat \<lfloor>bw\<rfloor> \<noteq> 0" "nat \<lfloor>bh\<rfloor> \<noteq> 0"
    using b(1,3) by simp_all
  from crop_box[OF ld, of "Num (of_nat nw)" "Num (of_nat nh)" "Num 1024"] assms(5) box
  have "url = toDataURL w
                (croppedCanvas (Image u sw sh) (nat \<lfloor>bw\<rfloor>) (nat \<lfloor>bh\<rfloor>)
                   (Num x, Num y, Num bw, Num bh))
                ''image/jpeg'' quality"
    by (simp add: MAX_DIMENSION_def dw dh split: if_splits)
  then show ?thesis using pos
    by (simp add: toDataURL_def croppedCanvas_def isJpegDataUrl_def)
qed

section \<open>Properties of the orchestrator\<close>

text \<open>
  C3. When the composition call is answered by a response none of whose parts carries
  inline data, the run fails with the no-image error and the cropping step is never called.
\<close>

theorem no_inline_data_no_crop:
  assumes "GenerateContent req \<in> set (fst (generateCompositeImage w d dd c cd))"
    and "model req = ''gemini-2.5-flash-image''"
    and "generateContent w req = Inr resp"
    and "noInlineData resp"
  shows "snd (generateCompositeImage w d dd c cd) = Inl noImageError \<and>
         \<not> list_ex isCrop (fst (generateCompositeImage w d dd c cd))"
  using assms
  by (cases rule: run_cases[of w d dd c cd]) (auto dest: noInlineData_imagePart)

theorem no_inline_data_no_crop_witness:
  "noInlineData \<lparr>responseText = Some ''Sorry.'',
                  candidates = Some [\<lparr>content = Some \<lparr>parts = Some [textPart]\<rparr>\<rparr>]\<rparr> \<and>
   snd (generateCompositeImage
          (exampleWorld (1920, 1080) (answer ''The laptop screen.'' [])
             (answer ''Sorry.'' [[textPart]]))
          designFile ''design.png'' contextFile ''room.png'') = Inl noImageError \<and>
   \<not> list_ex isCrop
       (fst (generateCompositeImage
               (exampleWorld (1920, 1080) (answer ''The laptop screen.'' [])
                  (answer ''Sorry.'' [[textPart]]))
               designFile ''design.png'' contextFile ''room.png''))"
proof -
  let ?w = "exampleWorld (1920, 1080) (answer ''The laptop screen.'' [])
              (answer ''Sorry.'' [[textPart]])"
  let ?resp = "\<lparr>responseText = Some ''Sorry.'',
                candidates = Some [\<lparr>content = Some \<lparr>parts = Some [textPart]\<rparr>\<rparr>]\<rparr>"
  let ?req = "compositionRequest examplePart examplePart (Some ''The laptop screen.'')"
  obtain rd rc where run:
    "generateCompositeImage ?w designFile ''design.png'' contextFile ''room.png'' =
       ([NewGoogleGenAI, GetImageDimensions contextFile,
         ResizeImage designFile MAX_DIMENSION, ResizeImage contextFile MAX_DIMENSION,
         FileToPart rc, GenerateContent (descriptionRequest examplePart),
         FileToPart rd, GenerateContent ?req],
        Inl noImageError)"
    by (rule example_run[of ?w 1920 1080 "''design.png''" "''room.png''"])
       (simp_all add: exampleWorld_def answer_def imagePartFromResponse_def textPart_def)
  have mem: "GenerateContent ?req
               \<in> set (fst (generateCompositeImage ?w designFile ''design.png'' contextFile
                              ''room.png''))"
    by (simp add: run)
  have gc: "generateContent ?w ?req = Inr ?resp" by (simp add: answer_def)
  have ni: "noInlineData ?resp"
    by (simp add: noInlineData_def hasInlineData_def textPart_def)
  from no_inline_data_no_crop[OF mem _ gc ni] ni show ?thesis by simp
qed



text \<open>
  C1, as the code has it. A description call that throws ends the run with the description
  error, and the composition call is not made. A description call that returns is never
  treated as a failure, whatever its text: the design image is converted next, and once
  that has succeeded the composition call is made with the returned text in its prompt.
\<close>

theorem description_failure_stops_run:
  assumes "GenerateContent req \<in> set (fst (generateCompositeImage w d dd c cd))"
    and "model req = ''gemini-2.5-flash-lite''"
  shows "(\<forall>e. generateContent w req = Inl e \<longrightarrow>
            snd (generateCompositeImage w d dd c cd) = Inl descriptionError \<and>
            \<not> list_ex isCompositionCall (fst (generateCompositeImage w d dd c cd))) \<and>
         (\<forall>dr. generateContent w req = Inr dr \<longrightarrow>
            (\<exists>rd. resizeImage w d MAX_DIMENSION = Inr rd \<and>
                  FileToPart rd \<in> set (fst (generateCompositeImage w d dd c cd)) \<and>
                  (\<forall>dp. fileToPart w rd = Inr dp \<longrightarrow>
                     (\<exists>cp. GenerateContent (compositionRequest dp cp (responseText dr))
                             \<in> set (fst (generateCompositeImage w d dd c cd))))))"
  using assms
  by (cases rule: run_cases[of w d dd c cd]) auto

text \<open>
  C1, as the specification states it, fails: a world whose description call returns the empty
  string. The composition call is made all the same and the run ends with a final image.
\<close>

theorem empty_description_reaches_composition:
  "generateContent
     (exampleWorld (1920, 1080) (answer [] []) (answer ''Done.'' [[pngPart]]))
     (descriptionRequest examplePart) =
     Inr \<lparr>responseText = Some [], candidates = Some []\<rparr> \<and>
   GenerateContent (descriptionRequest examplePart)
     \<in> set (fst (generateCompositeImage
                    (exampleWorld (1920, 1080) (answer [] []) (answer ''Done.'' [[pngPart]]))
                    designFile ''design.png'' contextFile ''room.png'')) \<and>
   GenerateContent (compositionRequest examplePart examplePart (Some []))
     \<in> set (fst (generateCompositeImage
                    (exampleWorld (1920, 1080) (answer [] []) (answer ''Done.'' [[pngPart]]))
                    designFile ''design.png'' contextFile ''room.png'')) \<and>
   snd (generateCompositeImage
          (exampleWorld (1920, 1080) (answer [] []) (answer ''Done.'' [[pngPart]]))
          designFile ''design.png'' contextFile ''room.png'') =
     Inr ''data:image/jpeg;base64,/9j/''"
  using example_success[of "[]" "''design.png''" "''room.png''"]
  by (auto simp: answer_def)

theorem description_failure_stops_run_witness:
  "snd (generateCompositeImage
          (exampleWorld (1920, 1080) (Inl (Error ''429 Too Many Requests''))
             (answer ''Done.'' [[pngPart]]))
          designFile ''design.png'' contextFile ''room.png'') = Inl descriptionError \<and>
   \<not> list_ex isCompositionCall
       (fst (generateCompositeImage
               (exampleWorld (1920, 1080) (Inl (Error ''429 Too Many Requests''))
                  (answer ''Done.'' [[pngPart]]))
               designFile ''design.png'' contextFile ''room.png'')) \<and>
   (\<exists>cp. GenerateContent (compositionRequest examplePart cp (Some []))
           \<in> set (fst (generateCompositeImage
                          (exampleWorld (1920, 1080) (answer [] [])
                             (answer ''Done.'' [[pngPart]]))
                          designFile ''design.png'' contextFile ''room.png'')))"
proof -
  let ?wf = "exampleWorld (1920, 1080) (Inl (Error ''429 Too Many Requests''))
               (answer ''Done.'' [[pngPart]])"
  let ?we = "exampleWorld (1920, 1080) (answer [] []) (answer ''Done.'' [[pngPart]])"
  obtain rd rc where runf:
    "generateCompositeImage ?wf designFile ''design.png'' contextFile ''room.png'' =
       ([NewGoogleGenAI, GetImageDimensions contextFile,
         ResizeImage designFile MAX_DIMENSION, ResizeImage contextFile MAX_DIMENSION,
         FileToPart rc, GenerateContent (descriptionRequest examplePart)],
        Inl descriptionError)"
    by (rule example_run[of ?wf 1920 1080 "''design.png''" "''room.png''"])
       (simp_all add: exampleWorld_def)
  have memf: "GenerateContent (descriptionRequest examplePart)
                \<in> set (fst (generateCompositeImage ?wf designFile ''design.png'' contextFile
                               ''room.png''))"
    by (simp add: runf)
  have a: "snd (generateCompositeImage ?wf designFile ''design.png'' contextFile ''room.png'')
             = Inl descriptionError \<and>
           \<not> list_ex isCompositionCall
               (fst (generateCompositeImage ?wf designFile ''design.png'' contextFile
                       ''room.png''))"
    using description_failure_stops_run[OF memf] by simp
  have meme: "GenerateContent (descriptionRequest examplePart)
                \<in> set (fst (generateCompositeImage ?we designFile ''design.png'' contextFile
                               ''room.png''))"
    using example_success[of "[]" "''design.png''" "''room.png''"] by auto
  obtain rd' where rd': "resizeImage ?we designFile MAX_DIMENSION = Inr rd'"
    "fileToPart ?we rd' = Inr examplePart"
    by (rule example_resize[of ?we "(1920, 1080)" designFile])
       (simp_all add: exampleWorld_def)
  have "\<exists>cp. GenerateContent (compositionRequest examplePart cp (Some []))
           \<in> set (fst (generateCompositeImage ?we designFile ''design.png'' contextFile
                          ''room.png''))"
    using description_failure_stops_run[OF meme] rd' by (auto simp: answer_def)
  with a show ?thesis by blast
qed

text \<open>
  C2, as the code has it. No failure is swallowed and nothing is retried: a run has at most
  one description call, one composition call and one crop, and it returns a URL only as the
  result of the crop. The orchestrator replaces the error of the description call by its
  own message and raises its own message for a response without an image part; the error
  of the composition call and the error of the crop reach the caller as they were thrown.
\<close>

theorem errors_surface_without_retry:
  "(case generateCompositeImage w d dd c cd of
      (tr, res) \<Rightarrow>
        (\<forall>req e. GenerateContent req \<in> set tr \<longrightarrow> model req = ''gemini-2.5-flash-lite'' \<longrightarrow>
                  generateContent w req = Inl e \<longrightarrow> res = Inl descriptionError) \<and>
        (\<forall>req e. GenerateContent req \<in> set tr \<longrightarrow> model req = ''gemini-2.5-flash-image'' \<longrightarrow>
                  generateContent w req = Inl e \<longrightarrow> res = Inl e) \<and>
        (\<forall>req resp. GenerateContent req \<in> set tr \<longrightarrow> model req = ''gemini-2.5-flash-image'' \<longrightarrow>
                  generateContent w req = Inr resp \<longrightarrow> imagePartFromResponse resp = None \<longrightarrow>
                  res = Inl noImageError) \<and>
        (\<forall>u ow oh t e. CropToOriginalAspectRatio u ow oh t \<in> set tr \<longrightarrow>
                  cropToOriginalAspectRatio w u ow oh t = Inl e \<longrightarrow> res = Inl e) \<and>
        length (filter isDescriptionCall tr) \<le> 1 \<and>
        length (filter isCompositionCall tr) \<le> 1 \<and>
        length (filter isCrop tr) \<le> 1 \<and>
        (\<forall>url. res = Inr url \<longrightarrow>
           (\<exists>u ow oh t. last tr = CropToOriginalAspectRatio u ow oh t \<and>
                 cropToOriginalAspectRatio w u ow oh t = Inr url)))"
  by (cases rule: run_cases[of w d dd c cd]) auto

text \<open>
  C8. Whenever a run resizes anything, it has measured the raw context image first, as its
  second call, and whenever it crops, the width and height it passes to the crop are the
  pair that measurement returned, with the fixed target dimension.
\<close>

theorem crop_uses_measured_dimensions:
  "(\<forall>f t. ResizeImage f t \<in> set (fst (generateCompositeImage w d dd c cd)) \<longrightarrow>
      (\<exists>nw nh rest. getImageDimensions w c = Inr (nw, nh) \<and>
         fst (generateCompositeImage w d dd c cd) =
           NewGoogleGenAI # GetImageDimensions c # rest \<and>
         GetImageDimensions c \<notin> set rest)) \<and>
   (\<forall>u ow oh t.
      CropToOriginalAspectRatio u ow oh t \<in> set (fst (generateCompositeImage w d dd c cd)) \<longrightarrow>
      (\<exists>nw nh. getImageDimensions w c = Inr (nw, nh) \<and>
         ow = Num (of_nat nw) \<and> oh = Num (of_nat nh) \<and> t = MAX_DIMENSION))"
  by (cases rule: run_cases[of w d dd c cd]) auto


theorem crop_uses_measured_dimensions_witness:
  "CropToOriginalAspectRatio ''data:image/png;base64,iVBORw0KGgo='' (Num 1920) (Num 1080)
     MAX_DIMENSION
     \<in> set (fst (generateCompositeImage
                    (exampleWorld (1920, 1080) (answer ''The laptop screen.'' [])
                       (answer ''Done.'' [[pngPart]]))
                    designFile ''design.png'' contextFile ''room.png'')) \<and>
   getImageDimensions
     (exampleWorld (1920, 1080) (answer ''The laptop screen.'' [])
        (answer ''Done.'' [[pngPart]]))
     contextFile = Inr (1920, 1080) \<and>
   loadImage
     (exampleWorld (1920, 1080) (answer ''The laptop screen.'' [])
        (answer ''Done.'' [[pngPart]]))
     ''data:image/jpeg;base64,/9j/'' = Some (1024, 1024)"
proof -
  let ?w = "exampleWorld (1920, 1080) (answer ''The laptop screen.'' [])
              (answer ''Done.'' [[pngPart]])"
  have mem: "CropToOriginalAspectRatio ''data:image/png;base64,iVBORw0KGgo='' (Num 1920)
               (Num 1080) MAX_DIMENSION
               \<in> set (fst (generateCompositeImage ?w designFile ''design.png'' contextFile
                              ''room.png''))"
    using example_success[of "''The laptop screen.''" "''design.png''" "''room.png''"]
    by auto
  from crop_uses_measured_dimensions[of ?w designFile "''design.png''" contextFile
         "''room.png''"] mem
  have "\<exists>nw nh. getImageDimensions ?w contextFile = Inr (nw, nh) \<and>
          Num 1920 = Num (of_nat nw) \<and> Num 1080 = Num (of_nat nh)"
    by blast
  then have "getImageDimensions ?w contextFile = Inr (1920, 1080)" by auto
  moreover have "loadImage ?w ''data:image/jpeg;base64,/9j/'' = Some (1024, 1024)"
    by (simp add: exampleWorld_def exampleLoader_def)
  ultimately show ?thesis using mem by simp
qed

text \<open>
  C2, as the specification states it, fails: the composition call of this world throws, and
  the run ends with the very value thrown, which is neither of the orchestrator's messages.
\<close>

theorem composition_failure_not_wrapped:
  "generateContent
     (exampleWorld (1920, 1080) (answer ''The laptop screen.'' [])
        (Inl (Error ''503 Service Unavailable'')))
     (compositionRequest examplePart examplePart (Some ''The laptop screen.'')) =
     Inl (Error ''503 Service Unavailable'') \<and>
   GenerateContent
     (compositionRequest examplePart examplePart (Some ''The laptop screen.''))
     \<in> set (fst (generateCompositeImage
                    (exampleWorld (1920, 1080) (answer ''The laptop screen.'' [])
                       (Inl (Error ''503 Service Unavailable'')))
                    designFile ''design.png'' contextFile ''room.png'')) \<and>
   snd (generateCompositeImage
          (exampleWorld (1920, 1080) (answer ''The laptop screen.'' [])
             (Inl (Error ''503 Service Unavailable'')))
          designFile ''design.png'' contextFile ''room.png'') =
     Inl (Error ''503 Service Unavailable'') \<and>
   Error ''503 Service Unavailable'' \<noteq> descriptionError \<and>
   Error ''503 Service Unavailable'' \<noteq> noImageError"
proof -
  let ?w = "exampleWorld (1920, 1080) (answer ''The laptop screen.'' [])
              (Inl (Error ''503 Service Unavailable''))"
  obtain rd rc where
    "generateCompositeImage ?w designFile ''design.png'' contextFile ''room.png'' =
       ([NewGoogleGenAI, GetImageDimensions contextFile,
         ResizeImage designFile MAX_DIMENSION, ResizeImage contextFile MAX_DIMENSION,
         FileToPart rc, GenerateContent (descriptionRequest examplePart),
         FileToPart rd,
         GenerateContent
           (compositionRequest examplePart examplePart (Some ''The laptop screen.''))],
        Inl (Error ''503 Service Unavailable''))"
    by (rule example_run[of ?w 1920 1080 "''design.png''" "''room.png''"])
       (simp_all add: exampleWorld_def answer_def)
  then show ?thesis by (simp add: descriptionError_def noImageError_def)
qed

theorem errors_surface_without_retry_witness:
  "snd (generateCompositeImage
          (exampleWorld (1920, 1080) (Inl (Error ''429 Too Many Requests''))
             (answer ''Done.'' [[pngPart]]))
          designFile ''design.png'' contextFile ''room.png'') = Inl descriptionError \<and>
   snd (generateCompositeImage
          (exampleWorld (1920, 1080) (answer ''The laptop screen.'' [])
             (Inl (Error ''503 Service Unavailable'')))
          designFile ''design.png'' contextFile ''room.png'') =
     Inl (Error ''503 Service Unavailable'') \<and>
   snd (generateCompositeImage
          (exampleWorld (1920, 1080) (answer ''The laptop screen.'' [])
             (answer ''Sorry.'' [[textPart]]))
          designFile ''design.png'' contextFile ''room.png'') = Inl noImageError \<and>
   snd (generateCompositeImage
          ((exampleWorld (1920, 1080) (answer ''The laptop screen.'' [])
              (answer ''Done.'' [[pngPart]]))\<lparr>getContext := (\<lambda>cw ch. ch = 1024)\<rparr>)
          designFile ''design.png'' contextFile ''room.png'') =
     Inl (Error ''Could not get canvas context for cropping.'') \<and>
   (case generateCompositeImage
           (exampleWorld (1920, 1080) (answer ''The laptop screen.'' [])
              (answer ''Done.'' [[pngPart]]))
           designFile ''design.png'' contextFile ''room.png'' of
      (tr, res) \<Rightarrow>
        res = Inr ''data:image/jpeg;base64,/9j/'' \<and>
        length (filter isDescriptionCall tr) = 1 \<and>
        length (filter isCompositionCall tr) = 1 \<and>
        length (filter isCrop tr) = 1)"
proof -
  let ?w1 = "exampleWorld (1920, 1080) (Inl (Error ''429 Too Many Requests''))
               (answer ''Done.'' [[pngPart]])"
  let ?w2 = "exampleWorld (1920, 1080) (answer ''The laptop screen.'' [])
               (Inl (Error ''503 Service Unavailable''))"
  let ?w3 = "exampleWorld (1920, 1080) (answer ''The laptop screen.'' [])
               (answer ''Sorry.'' [[textPart]])"
  let ?w4 = "(exampleWorld (1920, 1080) (answer ''The laptop screen.'' [])
               (answer ''Done.'' [[pngPart]]))\<lparr>getContext := (\<lambda>cw ch. ch = 1024)\<rparr>"
  let ?w5 = "exampleWorld (1920, 1080) (answer ''The laptop screen.'' [])
               (answer ''Done.'' [[pngPart]])"
  let ?req = "compositionRequest examplePart examplePart (Some ''The laptop screen.'')"
  let ?u = "''data:image/png;base64,iVBORw0KGgo=''"
  note t1 = errors_surface_without_retry[of ?w1 designFile "''design.png''" contextFile
              "''room.png''", unfolded case_prod_unfold]
  note t2 = errors_surface_without_retry[of ?w2 designFile "''design.png''" contextFile
              "''room.png''", unfolded case_prod_unfold]
  note t3 = errors_surface_without_retry[of ?w3 designFile "''design.png''" contextFile
              "''room.png''", unfolded case_prod_unfold]
  note t4 = errors_surface_without_retry[of ?w4 designFile "''design.png''" contextFile
              "''room.png''", unfolded case_prod_unfold]
  obtain rd1 rc1 where run1:
    "fst (generateCompositeImage ?w1 designFile ''design.png'' contextFile ''room.png'') =
       [NewGoogleGenAI, GetImageDimensions contextFile,
        ResizeImage designFile MAX_DIMENSION, ResizeImage contextFile MAX_DIMENSION,
        FileToPart rc1, GenerateContent (descriptionRequest examplePart)]"
    by (rule example_run[of ?w1 1920 1080 "''design.png''" "''room.png''"])
       (simp_all add: exampleWorld_def)
  have 1: "snd (generateCompositeImage ?w1 designFile ''design.png'' contextFile ''room.png'')
             = Inl descriptionError"
    by (rule t1[THEN conjunct1, rule_format,
                of "descriptionRequest examplePart" "Error ''429 Too Many Requests''"])
       (simp_all add: run1)
  obtain rd2 rc2 where run2:
    "fst (generateCompositeImage ?w2 designFile ''design.png'' contextFile ''room.png'') =
       [NewGoogleGenAI, GetImageDimensions contextFile,
        ResizeImage designFile MAX_DIMENSION, ResizeImage contextFile MAX_DIMENSION,
        FileToPart rc2, GenerateContent (descriptionRequest examplePart),
        FileToPart rd2, GenerateContent ?req]"
    by (rule example_run[of ?w2 1920 1080 "''design.png''" "''room.png''"])
       (simp_all add: exampleWorld_def answer_def)
  have 2: "snd (generateCompositeImage ?w2 designFile ''design.png'' contextFile ''room.png'')
             = Inl (Error ''503 Service Unavailable'')"
    by (rule t2[THEN conjunct2, THEN conjunct1, rule_format, of ?req])
       (simp_all add: run2)
  obtain rd3 rc3 where run3:
    "fst (generateCompositeImage ?w3 designFile ''design.png'' contextFile ''room.png'') =
       [NewGoogleGenAI, GetImageDimensions contextFile,
        ResizeImage designFile MAX_DIMENSION, ResizeImage contextFile MAX_DIMENSION,
        FileToPart rc3, GenerateContent (descriptionRequest examplePart),
        FileToPart rd3, GenerateContent ?req]"
    by (rule example_run[of ?w3 1920 1080 "''design.png''" "''room.png''"])
       (simp_all add: exampleWorld_def answer_def imagePartFromResponse_def textPart_def)
  have mem3: "GenerateContent ?req
                \<in> set (fst (generateCompositeImage ?w3 designFile ''design.png'' contextFile
                               ''room.png''))"
    by (simp add: run3)
  have gc3: "generateContent ?w3 ?req =
               Inr \<lparr>responseText = Some ''Sorry.'',
                    candidates = Some [\<lparr>content = Some \<lparr>parts = Some [textPart]\<rparr>\<rparr>]\<rparr>"
    by (simp add: answer_def)
  have ip3: "imagePartFromResponse
               \<lparr>responseText = Some ''Sorry.'',
                candidates = Some [\<lparr>content = Some \<lparr>parts = Some [textPart]\<rparr>\<rparr>]\<rparr> = None"
    by (simp add: imagePartFromResponse_def textPart_def)
  have 3: "snd (generateCompositeImage ?w3 designFile ''design.png'' contextFile ''room.png'')
             = Inl noImageError"
    by (rule t3[THEN conjunct2, THEN conjunct2, THEN conjunct1, rule_format,
                OF mem3 _ gc3 ip3]) simp
  obtain rd4 rc4 where run4:
    "fst (generateCompositeImage ?w4 designFile ''design.png'' contextFile ''room.png'') =
       [NewGoogleGenAI, GetImageDimensions contextFile,
        ResizeImage designFile MAX_DIMENSION, ResizeImage contextFile MAX_DIMENSION,
        FileToPart rc4, GenerateContent (descriptionRequest examplePart),
        FileToPart rd4, GenerateContent ?req,
        CropToOriginalAspectRatio ?u (Num 1920) (Num 1080) MAX_DIMENSION]"
    by (rule example_run[of ?w4 1920 1080 "''design.png''" "''room.png''"])
       (simp_all add: exampleWorld_def answer_def imagePartFromResponse_def pngPart_def)
  have "loadImage ?w4 ?u = Some (1024, 1024)"
    by (simp add: exampleWorld_def exampleLoader_def)
  from crop_1920_1080[OF this]
  have crop4: "cropToOriginalAspectRatio ?w4 ?u (Num 1920) (Num 1080) MAX_DIMENSION =
                 Inl (Error ''Could not get canvas context for cropping.'')"
    by (simp add: exampleWorld_def)
  have 4: "snd (generateCompositeImage ?w4 designFile ''design.png'' contextFile ''room.png'')
             = Inl (Error ''Could not get canvas context for cropping.'')"
    by (rule t4[THEN conjunct2, THEN conjunct2, THEN conjunct2, THEN conjunct1, rule_format,
                of ?u "Num 1920" "Num 1080" MAX_DIMENSION])
       (simp_all add: run4 crop4)
  have 5: "case generateCompositeImage ?w5 designFile ''design.png'' contextFile ''room.png'' of
      (tr, res) \<Rightarrow>
        res = Inr ''data:image/jpeg;base64,/9j/'' \<and>
        length (filter isDescriptionCall tr) = 1 \<and>
        length (filter isCompositionCall tr) = 1 \<and>
        length (filter isCrop tr) = 1"
    using example_success[of "''The laptop screen.''" "''design.png''" "''room.png''"]
    by auto
  from 1 2 3 4 5 show ?thesis by blast
qed

section \<open>The final URL\<close>

text \<open>
  The URL a run returns is what \<^verbatim>\<open>toDataURL('image/jpeg', 0.95)\<close> made of the cropped canvas,
  whatever the MIME type of the payload the model sent. It is a JPEG data URL whenever the
  measured context image is at most 1024 times as wide as high and at most 1024 times as
  high as wide, since the cropped canvas then has at least one pixel in each direction.
\<close>

lemma final_url_is_jpeg:
  assumes "snd (generateCompositeImage w d dd c cd) = Inr url"
  shows "\<exists>nw nh cv.
           getImageDimensions w c = Inr (nw, nh) \<and>
           url = toDataURL w cv ''image/jpeg'' quality \<and>
           (url = ''data:,'' \<or> isJpegDataUrl url) \<and>
           (0 < nw \<longrightarrow> 0 < nh \<longrightarrow> nw \<le> 1024 * nh \<longrightarrow> nh \<le> 1024 * nw \<longrightarrow> isJpegDataUrl url)"
proof (cases rule: run_cases[of w d dd c cd])
  case (crop ow oh rd rc cp dr dp resp p b dat res)
  from crop(11,12) assms have cr:
    "cropToOriginalAspectRatio w
       (''data:'' @ (case mimeType b of None \<Rightarrow> ''undefined'' | Some m \<Rightarrow> m)
        @ '';base64,'' @ dat)
       (Num (of_nat ow)) (Num (of_nat oh)) MAX_DIMENSION = Inr url"
    by simp
  from crop_url_cases[OF cr] obtain cv where
    "url = toDataURL w cv ''image/jpeg'' quality" "url = ''data:,'' \<or> isJpegDataUrl url"
    by blast
  moreover have "0 < ow \<longrightarrow> 0 < oh \<longrightarrow> ow \<le> 1024 * oh \<longrightarrow> oh \<le> 1024 * ow \<longrightarrow> isJpegDataUrl url"
    using crop_visible_jpeg[OF _ _ _ _ cr] by blast
  ultimately show ?thesis using crop(1) by blast
qed (use assms in \<open>simp_all add: descriptionError_def noImageError_def\<close>)

lemma final_url_is_jpeg_example:
  "snd (generateCompositeImage
          (exampleWorld (1920, 1080) (answer ''The laptop screen.'' [])
             (answer ''Done.'' [[pngPart]]))
          designFile ''design.png'' contextFile ''room.png'') =
     Inr ''data:image/jpeg;base64,/9j/'' \<and>
   mimeType (the (inlineData pngPart)) = Some ''image/png'' \<and>
   isJpegDataUrl ''data:image/jpeg;base64,/9j/''"
proof -
  let ?w = "exampleWorld (1920, 1080) (answer ''The laptop screen.'' [])
              (answer ''Done.'' [[pngPart]])"
  have run: "snd (generateCompositeImage ?w designFile ''design.png'' contextFile ''room.png'')
               = Inr ''data:image/jpeg;base64,/9j/''"
    using example_success[of "''The laptop screen.''" "''design.png''" "''room.png''"]
    by auto
  have m: "getImageDimensions ?w contextFile = Inr (1920, 1080)"
    by (rule example_measure) (simp_all add: exampleWorld_def)
  from final_url_is_jpeg[OF run] m have "isJpegDataUrl ''data:image/jpeg;base64,/9j/''"
    by auto
  with run show ?thesis by (simp add: pngPart_def)
qed

text \<open>
  C9. The final result is to be a data URL of type \<^verbatim>\<open>image/jpeg\<close>, whatever the MIME type of
  the payload of the model. The code misses this for a context image of 2048 by 1: the
  content box is half a pixel high, assigning it to the canvas gives a height of 0, and the
  run returns \<^verbatim>\<open>data:,\<close>, which is not the data URL of an image that the function documents
  as its result.
\<close>

theorem thin_context_yields_empty_url:
  "getImageDimensions
     (exampleWorld (2048, 1) (answer ''The laptop screen.'' []) (answer ''Done.'' [[pngPart]]))
     contextFile = Inr (2048, 1) \<and>
   snd (generateCompositeImage
          (exampleWorld (2048, 1) (answer ''The laptop screen.'' [])
             (answer ''Done.'' [[pngPart]]))
          designFile ''design.png'' contextFile ''room.png'') = Inr ''data:,'' \<and>
   \<not> isJpegDataUrl ''data:,''"
proof -
  let ?w = "exampleWorld (2048, 1) (answer ''The laptop screen.'' [])
              (answer ''Done.'' [[pngPart]])"
  let ?u = "''data:image/png;base64,iVBORw0KGgo=''"
  have m: "getImageDimensions ?w contextFile = Inr (2048, 1)"
    by (rule example_measure) (simp_all add: exampleWorld_def)
  obtain rd rc where run:
    "snd (generateCompositeImage ?w designFile ''design.png'' contextFile ''room.png'') =
       cropToOriginalAspectRatio ?w ?u (Num 2048) (Num 1) MAX_DIMENSION"
    by (rule example_run[of ?w 2048 1 "''design.png''" "''room.png''"])
       (simp_all add: exampleWorld_def answer_def imagePartFromResponse_def pngPart_def)
  have ld: "loadImage ?w ?u = Some (1024, 1024)"
    by (simp add: exampleWorld_def exampleLoader_def)
  have box: "contentBox (Num 2048) (Num 1) (Num 1024) =
               (Num 0, Num (fl (fl (1024 - 1 / 2) / 2)), Num 1024, Num (1 / 2))"
    using contentBox_formula[of 1 2048 1024] by (simp add: fl_numeral fl_half fl_zero)
  have d: "setDimension 300 (Num 1024) = 1024" "setDimension 150 (Num (1 / 2)) = 0"
    using setDimension_floor[of 1024 300] setDimension_floor[of "1 / 2" 150] by simp_all
  have "cropToOriginalAspectRatio ?w ?u (Num 2048) (Num 1) MAX_DIMENSION = Inr ''data:,''"
    using crop_box[OF ld, of "Num 2048" "Num 1" "Num 1024"]
    by (simp add: MAX_DIMENSION_def box d toDataURL_def croppedCanvas_def exampleWorld_def)
  with run m show ?thesis by (simp add: isJpegDataUrl_def)
qed

section \<open>The concrete landscape case\<close>

text \<open>
  C6. For an original of 1920 by 1080 and a target of 1024 the content box is exactly 1024 by
  576 at offset (0, 224), and the cropping step cuts exactly that region out of the square
  image, onto a canvas of 1024 by 576.
\<close>

theorem landscape_1920_1080_in_1024:
  "contentBox (Num 1920) (Num 1080) (Num 1024) = (Num 0, Num 224, Num 1024, Num 576) \<and>
   cropToOriginalAspectRatio w u (Num 1920) (Num 1080) (Num 1024) =
     (case loadImage w u of
        None \<Rightarrow> Inl (Error ''Image load error during cropping: [object Event]'')
      | Some (sw, sh) \<Rightarrow>
          if getContext w 1024 576
          then Inr (toDataURL w
                 \<lparr>width = 1024, height = 576,
                  drawn = [DrawImageRegion (Image u sw sh) (Num 0) (Num 224) (Num 1024) (Num 576)
                             (Num 0) (Num 0) (Num 1024) (Num 576)]\<rparr>
                 ''image/jpeg'' quality)
          else Inl (Error ''Could not get canvas context for cropping.''))"
proof (cases "loadImage w u")
  case None
  then show ?thesis
    by (simp add: contentBox_1920_1080 cropToOriginalAspectRatio_def)
next
  case (Some s)
  obtain sw sh where s: "s = (sw, sh)" by (cases s)
  have d1: "setDimension 300 (Num 1024) = 1024"
    using setDimension_floor[of 1024 300] by simp
  have d2: "setDimension 150 (Num 576) = 576"
    using setDimension_floor[of 576 150] by simp
  show ?thesis
    using Some s crop_box[of w u sw sh "Num 1920" "Num 1080" "Num 1024"]
    by (simp add: contentBox_1920_1080 croppedCanvas_def d1 d2)
qed

section \<open>Properties of padding and cropping\<close>

text \<open>
  C7. Whatever the natural size of the image read from the file (its height positive, so
  that it has an aspect ratio), a file returned by the padding step for a target of \<open>t\<close>
  pixels is the JPEG encoding of a canvas of exactly \<open>t\<close> by \<open>t\<close> pixels, filled black, on
  which the image is drawn in a box whose width and height are each at most \<open>t\<close>.
\<close>

theorem padded_square_is_target_sized:
  assumes "readAsDataURL w f = Some r" and "loadImage w r = Some (nw, nh)"
    and "0 < nh" and "t \<le> 2147483647"
    and "resizeImage w f (Num (of_nat t)) = Inr out"
  shows "\<exists>x y bw bh.
           bytes out =
             Encoded
               \<lparr>width = t, height = t,
                drawn = [FillRect ''black'' (Num 0) (Num 0) (Num (of_nat t)) (Num (of_nat t)),
                         DrawImage (Image r nw nh) (Num x) (Num y) (Num bw) (Num bh)]\<rparr>
               ''image/jpeg'' quality \<and>
           fileType out = ''image/jpeg'' \<and>
           0 \<le> bw \<and> bw \<le> of_nat t \<and> 0 \<le> bh \<and> bh \<le> of_nat t \<and>
           (bw = of_nat t \<or> bh = of_nat t)"
proof -
  have "t < 2 ^ 53" using assms(4) by simp
  then have ft: "fl (of_nat t) = of_nat t" by (rule fl_of_nat)
  obtain x y bw bh where box:
    "contentBox (Num (of_nat nw)) (Num (of_nat nh)) (Num (of_nat t)) =
       (Num x, Num y, Num bw, Num bh)"
    and b: "0 \<le> bw" "bw \<le> of_nat t" "0 \<le> bh" "bh \<le> of_nat t"
      "bw = of_nat t \<or> bh = of_nat t"
    by (rule contentBox_bounds[OF assms(3) _ ft, of nw]) simp_all
  from resizeImage_Inr[OF assms(1,2,5)] box
  have "bytes out =
             Encoded
               \<lparr>width = t, height = t,
                drawn = [FillRect ''black'' (Num 0) (Num 0) (Num (of_nat t)) (Num (of_nat t)),
                         DrawImage (Image r nw nh) (Num x) (Num y) (Num bw) (Num bh)]\<rparr>
               ''image/jpeg'' quality"
    and "fileType out = ''image/jpeg''"
    by (simp_all add: paddedCanvas_def setDimension_of_nat[OF assms(4)])
  with b show ?thesis by blast
qed

theorem padded_square_is_target_sized_witness:
  "readAsDataURL (exampleWorld (1920, 1080) (answer [] []) (answer [] [])) contextFile =
     Some ''data:image/png;base64,Q09OVEVYVA=='' \<and>
   loadImage (exampleWorld (1920, 1080) (answer [] []) (answer [] []))
     ''data:image/png;base64,Q09OVEVYVA=='' = Some (1920, 1080) \<and>
   (0::nat) < 1080 \<and> (1024::nat) \<le> 2147483647 \<and>
   (\<exists>out x y bw bh.
      resizeImage (exampleWorld (1920, 1080) (answer [] []) (answer [] [])) contextFile
        (Num (of_nat 1024)) = Inr out \<and>
      bytes out =
        Encoded
          \<lparr>width = 1024, height = 1024,
           drawn = [FillRect ''black'' (Num 0) (Num 0) (Num (of_nat 1024)) (Num (of_nat 1024)),
                    DrawImage (Image ''data:image/png;base64,Q09OVEVYVA=='' 1920 1080)
                      (Num x) (Num y) (Num bw) (Num bh)]\<rparr>
          ''image/jpeg'' quality \<and>
      fileType out = ''image/jpeg'' \<and>
      0 \<le> bw \<and> bw \<le> of_nat 1024 \<and> 0 \<le> bh \<and> bh \<le> of_nat 1024 \<and>
      (bw = of_nat 1024 \<or> bh = of_nat 1024))"
proof -
  let ?w = "exampleWorld (1920, 1080) (answer [] []) (answer [] [])"
  have rd: "readAsDataURL ?w contextFile = Some ''data:image/png;base64,Q09OVEVYVA==''"
    by (simp add: exampleWorld_def exampleReader_def contextFile_def)
  have ld: "loadImage ?w ''data:image/png;base64,Q09OVEVYVA=='' = Some (1920, 1080)"
    by (simp add: exampleWorld_def exampleLoader_def)
  obtain out where rs: "resizeImage ?w contextFile (Num (of_nat 1024)) = Inr out"
    using example_resize_context[of "answer [] []" "answer [] []"] by simp
  from padded_square_is_target_sized[OF rd ld _ _ rs] rd ld rs show ?thesis
    by simp
qed

text \<open>
  C5. The padding step and the cropping step compute one and the same content box from the
  width, the height and the target: the padding step draws the image into it, the cropping
  step cuts it out of the square. For a positive height and a finite target the box is the
  one the specification gives, every operation being JavaScript's: with \<open>a\<close> the quotient of
  width and height, if \<open>a\<close> exceeds 1 the box is the target wide and the target over \<open>a\<close>
  high, otherwise the target high and the target times \<open>a\<close> wide, and it starts at half of
  what the target leaves over in each direction.
\<close>

theorem same_content_box:
  assumes "readAsDataURL w f = Some r" and "r \<noteq> []" and "loadImage w r = Some (nw, nh)"
    and "loadImage w u = Some (sw, sh)"
  shows "resizeImage w f t =
           (if getContext w (setDimension 300 t) (setDimension 150 t)
            then (case toBlob w
                         (paddedCanvas (Image r nw nh) t
                            (contentBox (Num (of_nat nw)) (Num (of_nat nh)) t))
                         ''image/jpeg'' quality of
                    None \<Rightarrow> Inl (Error ''Canvas to Blob conversion failed.'')
                  | Some b \<Rightarrow>
                      Inr \<lparr>name = name f, fileType = ''image/jpeg'', lastModified = now w,
                           bytes = b\<rparr>)
            else Inl (Error ''Could not get canvas context.'')) \<and>
         cropToOriginalAspectRatio w u (Num (of_nat nw)) (Num (of_nat nh)) t =
           (case contentBox (Num (of_nat nw)) (Num (of_nat nh)) t of
              (x, y, bw, bh) \<Rightarrow>
                if getContext w (setDimension 300 bw) (setDimension 150 bh)
                then Inr (toDataURL w
                       (croppedCanvas (Image u sw sh) (setDimension 300 bw) (setDimension 150 bh)
                          (x, y, bw, bh))
                       ''image/jpeg'' quality)
                else Inl (Error ''Could not get canvas context for cropping.'')) \<and>
         (0 < nh \<longrightarrow>
            (\<forall>T. contentBox (Num (of_nat nw)) (Num (of_nat nh)) (Num T) =
               (if 1 < fl (of_nat nw / of_nat nh)
                then (Num (fl (fl (T - T) / 2)),
                      Num (fl (fl (T - fl (T / fl (of_nat nw / of_nat nh))) / 2)),
                      Num T,
                      Num (fl (T / fl (of_nat nw / of_nat nh))))
                else (Num (fl (fl (T - fl (T * fl (of_nat nw / of_nat nh))) / 2)),
                      Num (fl (fl (T - T) / 2)),
                      Num (fl (T * fl (of_nat nw / of_nat nh))),
                      Num T))))"
  using resizeImage_box[OF assms(1-3), of t] crop_box[OF assms(4), of "Num (of_nat nw)"
          "Num (of_nat nh)" t] contentBox_formula[of nh nw]
  by (simp split: prod.splits)


theorem same_content_box_witness:
  "readAsDataURL (exampleWorld (1920, 1080) (answer [] []) (answer [] [])) contextFile =
     Some ''data:image/png;base64,Q09OVEVYVA=='' \<and>
   ''data:image/png;base64,Q09OVEVYVA=='' \<noteq> [] \<and>
   loadImage (exampleWorld (1920, 1080) (answer [] []) (answer [] []))
     ''data:image/png;base64,Q09OVEVYVA=='' = Some (1920, 1080) \<and>
   loadImage (exampleWorld (1920, 1080) (answer [] []) (answer [] []))
     ''data:image/jpeg;base64,/9j/'' = Some (1024, 1024) \<and>
   contentBox (Num (of_nat 1920)) (Num (of_nat 1080)) (Num 1024) =
     (Num 0, Num 224, Num 1024, Num 576) \<and>
   resizeImage (exampleWorld (1920, 1080) (answer [] []) (answer [] [])) contextFile
     (Num 1024) =
     Inr \<lparr>name = ''room.png'', fileType = ''image/jpeg'', lastModified = 0,
          bytes = Encoded
                    (paddedCanvas (Image ''data:image/png;base64,Q09OVEVYVA=='' 1920 1080)
                       (Num 1024) (Num 0, Num 224, Num 1024, Num 576))
                    ''image/jpeg'' quality\<rparr> \<and>
   cropToOriginalAspectRatio (exampleWorld (1920, 1080) (answer [] []) (answer [] []))
     ''data:image/jpeg;base64,/9j/'' (Num (of_nat 1920)) (Num (of_nat 1080)) (Num 1024) =
     Inr (toDataURL (exampleWorld (1920, 1080) (answer [] []) (answer [] []))
            (croppedCanvas (Image ''data:image/jpeg;base64,/9j/'' 1024 1024) 1024 576
               (Num 0, Num 224, Num 1024, Num 576))
            ''image/jpeg'' quality)"
proof -
  let ?w = "exampleWorld (1920, 1080) (answer [] []) (answer [] [])"
  let ?r = "''data:image/png;base64,Q09OVEVYVA==''"
  let ?u = "''data:image/jpeg;base64,/9j/''"
  have rd: "readAsDataURL ?w contextFile = Some ?r"
    by (simp add: exampleWorld_def exampleReader_def contextFile_def)
  have ne: "?r \<noteq> []" by simp
  have ld: "loadImage ?w ?r = Some (1920, 1080)"
    by (simp add: exampleWorld_def exampleLoader_def)
  have lq: "loadImage ?w ?u = Some (1024, 1024)"
    by (simp add: exampleWorld_def exampleLoader_def)
  have box: "contentBox (Num (of_nat 1920)) (Num (of_nat 1080)) (Num 1024) =
               (Num 0, Num 224, Num 1024, Num 576)"
    using contentBox_1920_1080 by simp
  have d: "setDimension 300 (Num 1024) = 1024" "setDimension 150 (Num 1024) = 1024"
    "setDimension 150 (Num 576) = 576"
    using setDimension_floor[of 1024] setDimension_floor[of 576] by simp_all
  have ctx: "getContext ?w a b" for a b by (simp add: exampleWorld_def)
  have nm: "name contextFile = ''room.png''" "now ?w = 0"
    by (simp_all add: contextFile_def exampleWorld_def)
  have blob: "toBlob ?w (paddedCanvas (Image ?r 1920 1080) (Num 1024)
                           (Num 0, Num 224, Num 1024, Num 576)) ''image/jpeg'' quality =
                Some (Encoded (paddedCanvas (Image ?r 1920 1080) (Num 1024)
                                 (Num 0, Num 224, Num 1024, Num 576)) ''image/jpeg'' quality)"
    by (simp add: toBlob_def paddedCanvas_def d exampleWorld_def)
  from same_content_box[OF rd ne ld lq, of "Num 1024"] rd ld lq box show ?thesis
    by (simp add: d ctx nm blob)
qed

section \<open>Cropping what padding produced\<close>

text \<open>
  The canvases of a round trip with the same width, height and target. The region the
  cropping step cuts out of the square is exactly the box the padding step drew the image
  into, and the cropped canvas spans the target in one direction while in the other its
  extent \<open>n\<close> satisfies \<open>n \<le> e \<le> n + 1\<close> for the exact extent \<open>e\<close> that the ratio asks for.
  The width and the height are natural sizes of an image, which are unsigned 32-bit numbers,
  and the target is at most \<open>2\<^sup>2\<^sup>0\<close>; the code's own target is 1024. The lemma speaks of
  the canvas, not of the URL: a canvas of extent 0 is encoded as no image at all.
\<close>

lemma roundtrip_canvases:
  assumes "0 < nw" and "nw < 2 ^ 32" and "0 < nh" and "nh < 2 ^ 32" and "t \<le> 2 ^ 20"
    and "readAsDataURL w f = Some r" and "loadImage w r = Some (nw, nh)"
    and "resizeImage w f (Num (of_nat t)) = Inr sq"
    and "readAsDataURL w sq = Some u" and "loadImage w u = Some (sw, sh)"
    and "cropToOriginalAspectRatio w u (Num (of_nat nw)) (Num (of_nat nh)) (Num (of_nat t)) =
           Inr out"
  shows "\<exists>x y bw bh cw ch.
           bytes sq =
             Encoded
               \<lparr>width = t, height = t,
                drawn = [FillRect ''black'' (Num 0) (Num 0) (Num (of_nat t)) (Num (of_nat t)),
                         DrawImage (Image r nw nh) x y bw bh]\<rparr>
               ''image/jpeg'' quality \<and>
           out =
             toDataURL w
               \<lparr>width = cw, height = ch,
                drawn = [DrawImageRegion (Image u sw sh) x y bw bh (Num 0) (Num 0) bw bh]\<rparr>
               ''image/jpeg'' quality \<and>
           ((cw = t \<and> ch * nw \<le> t * nh \<and> t * nh \<le> (ch + 1) * nw) \<or>
            (ch = t \<and> cw * nh \<le> t * nw \<and> t * nw \<le> (cw + 1) * nh))"
proof -
  obtain x y bw bh where box:
    "contentBox (Num (of_nat nw)) (Num (of_nat nh)) (Num (of_nat t)) =
       (Num x, Num y, Num bw, Num bh)"
    and b: "0 \<le> bw" "bw \<le> of_nat t" "0 \<le> bh" "bh \<le> of_nat t"
    and tol: "(nat \<lfloor>bw\<rfloor> = t \<and> nat \<lfloor>bh\<rfloor> * nw \<le> t * nh \<and> t * nh \<le> (nat \<lfloor>bh\<rfloor> + 1) * nw) \<or>
         (nat \<lfloor>bh\<rfloor> = t \<and> nat \<lfloor>bw\<rfloor> * nh \<le> t * nw \<and> t * nw \<le> (nat \<lfloor>bw\<rfloor> + 1) * nh)"
    using assms(1-5) by (rule roundtrip_box)
  have tb: "real t < 2147483648"
  proof -
    have "t < 2147483648" using assms(5) by simp
    then show ?thesis by (metis of_nat_less_iff of_nat_numeral)
  qed
  have t31: "t \<le> 2147483647" using assms(5) by simp
  have dw: "setDimension 300 (Num bw) = nat \<lfloor>bw\<rfloor>"
    using b(1,2) tb by (intro setDimension_floor) simp_all
  have dh: "setDimension 150 (Num bh) = nat \<lfloor>bh\<rfloor>"
    using b(3,4) tb by (intro setDimension_floor) simp_all
  from resizeImage_Inr[OF assms(6,7,8)] box
  have 1: "bytes sq =
             Encoded
               \<lparr>width = t, height = t,
                drawn = [FillRect ''black'' (Num 0) (Num 0) (Num (of_nat t)) (Num (of_nat t)),
                         DrawImage (Image r nw nh) (Num x) (Num y) (Num bw) (Num bh)]\<rparr>
               ''image/jpeg'' quality"
    by (simp add: paddedCanvas_def setDimension_of_nat[OF t31])
  from crop_box[OF assms(10), of "Num (of_nat nw)" "Num (of_nat nh)" "Num (of_nat t)"]
    assms(11) box
  have 2: "out =
             toDataURL w
               \<lparr>width = nat \<lfloor>bw\<rfloor>, height = nat \<lfloor>bh\<rfloor>,
                drawn = [DrawImageRegion (Image u sw sh) (Num x) (Num y) (Num bw) (Num bh)
                           (Num 0) (Num 0) (Num bw) (Num bh)]\<rparr>
               ''image/jpeg'' quality"
    by (simp add: croppedCanvas_def dw dh split: if_splits)
  from 1 2 tol show ?thesis by blast
qed


lemma roundtrip_canvases_example:
  "(0::nat) < 1920 \<and> (1920::nat) < 2 ^ 32 \<and> (0::nat) < 1080 \<and> (1080::nat) < 2 ^ 32 \<and>
   (1024::nat) \<le> 2 ^ 20 \<and>
   readAsDataURL (exampleWorld (1920, 1080) (answer [] []) (answer [] [])) contextFile =
     Some ''data:image/png;base64,Q09OVEVYVA=='' \<and>
   loadImage (exampleWorld (1920, 1080) (answer [] []) (answer [] []))
     ''data:image/png;base64,Q09OVEVYVA=='' = Some (1920, 1080) \<and>
   (\<exists>sq x y bw bh cw ch.
      resizeImage (exampleWorld (1920, 1080) (answer [] []) (answer [] [])) contextFile
        (Num (of_nat 1024)) = Inr sq \<and>
      readAsDataURL (exampleWorld (1920, 1080) (answer [] []) (answer [] [])) sq =
        Some ''data:image/jpeg;base64,/9j/'' \<and>
      loadImage (exampleWorld (1920, 1080) (answer [] []) (answer [] []))
        ''data:image/jpeg;base64,/9j/'' = Some (1024, 1024) \<and>
      cropToOriginalAspectRatio (exampleWorld (1920, 1080) (answer [] []) (answer [] []))
        ''data:image/jpeg;base64,/9j/'' (Num (of_nat 1920)) (Num (of_nat 1080))
        (Num (of_nat 1024)) = Inr ''data:image/jpeg;base64,/9j/'' \<and>
      bytes sq =
        Encoded
          \<lparr>width = 1024, height = 1024,
           drawn = [FillRect ''black'' (Num 0) (Num 0) (Num (of_nat 1024)) (Num (of_nat 1024)),
                    DrawImage (Image ''data:image/png;base64,Q09OVEVYVA=='' 1920 1080)
                      x y bw bh]\<rparr>
          ''image/jpeg'' quality \<and>
      ''data:image/jpeg;base64,/9j/'' =
        toDataURL (exampleWorld (1920, 1080) (answer [] []) (answer [] []))
          \<lparr>width = cw, height = ch,
           drawn = [DrawImageRegion (Image ''data:image/jpeg;base64,/9j/'' 1024 1024)
                      x y bw bh (Num 0) (Num 0) bw bh]\<rparr>
          ''image/jpeg'' quality \<and>
      ((cw = 1024 \<and> ch * 1920 \<le> 1024 * 1080 \<and> 1024 * 1080 \<le> (ch + 1) * 1920) \<or>
       (ch = 1024 \<and> cw * 1080 \<le> 1024 * 1920 \<and> 1024 * 1920 \<le> (cw + 1) * 1080)))"
proof -
  let ?w = "exampleWorld (1920, 1080) (answer [] []) (answer [] [])"
  let ?u = "''data:image/jpeg;base64,/9j/''"
  have rd: "readAsDataURL ?w contextFile = Some ''data:image/png;base64,Q09OVEVYVA==''"
    by (simp add: exampleWorld_def exampleReader_def contextFile_def)
  have ld: "loadImage ?w ''data:image/png;base64,Q09OVEVYVA=='' = Some (1920, 1080)"
    by (simp add: exampleWorld_def exampleLoader_def)
  obtain sq where rs: "resizeImage ?w contextFile (Num (of_nat 1024)) = Inr sq"
    and rq: "readAsDataURL ?w sq = Some ?u"
    using example_resize_context[of "answer [] []" "answer [] []"]
    by (simp add: exampleWorld_def exampleReader_def)
  have lq: "loadImage ?w ?u = Some (1024, 1024)"
    by (simp add: exampleWorld_def exampleLoader_def)
  have cr: "cropToOriginalAspectRatio ?w ?u (Num (of_nat 1920)) (Num (of_nat 1080))
              (Num (of_nat 1024)) = Inr ?u"
    using example_crop_1920_1080[of "(1920, 1080)" "answer [] []" "answer [] []" ?u]
    by (simp add: MAX_DIMENSION_def)
  have h: "(0::nat) < 1920" "(1920::nat) < 2 ^ 32" "(0::nat) < 1080" "(1080::nat) < 2 ^ 32"
    "(1024::nat) \<le> 2 ^ 20"
    by simp_all
  from roundtrip_canvases[OF h rd ld rs rq lq cr] rd ld rs rq lq cr show ?thesis
    by (simp only: h simp_thms) blast
qed

text \<open>
  C4. Cropping what padding produced is to give an image of the original aspect ratio, up to
  rounding, for every positive width and height. The code misses this for a width of 2048, a
  height of 1 and a target of 1024: the padding step draws the image into a box half a pixel
  high, the cropping step sets the height of its canvas to that half pixel, which makes it
  0, and the result is \<^verbatim>\<open>data:,\<close>, no image, where the helper is to crop the square back to
  the original aspect ratio.
\<close>

theorem thin_roundtrip_yields_empty_url:
  "resizeImage (exampleWorld (2048, 1) (answer [] []) (answer [] [])) contextFile (Num 1024) =
     Inr \<lparr>name = ''room.png'', fileType = ''image/jpeg'', lastModified = 0,
          bytes = Encoded
                    \<lparr>width = 1024, height = 1024,
                     drawn = [FillRect ''black'' (Num 0) (Num 0) (Num 1024) (Num 1024),
                              DrawImage (Image ''data:image/png;base64,Q09OVEVYVA=='' 2048 1)
                                (Num 0) (Num (2047 / 4)) (Num 1024) (Num (1 / 2))]\<rparr>
                    ''image/jpeg'' quality\<rparr> \<and>
   readAsDataURL (exampleWorld (2048, 1) (answer [] []) (answer [] []))
     \<lparr>name = ''room.png'', fileType = ''image/jpeg'', lastModified = 0,
      bytes = Encoded
                \<lparr>width = 1024, height = 1024,
                 drawn = [FillRect ''black'' (Num 0) (Num 0) (Num 1024) (Num 1024),
                          DrawImage (Image ''data:image/png;base64,Q09OVEVYVA=='' 2048 1)
                            (Num 0) (Num (2047 / 4)) (Num 1024) (Num (1 / 2))]\<rparr>
                ''image/jpeg'' quality\<rparr> = Some ''data:image/jpeg;base64,/9j/'' \<and>
   loadImage (exampleWorld (2048, 1) (answer [] []) (answer [] []))
     ''data:image/jpeg;base64,/9j/'' = Some (1024, 1024) \<and>
   cropToOriginalAspectRatio (exampleWorld (2048, 1) (answer [] []) (answer [] []))
     ''data:image/jpeg;base64,/9j/'' (Num 2048) (Num 1) (Num 1024) =
     Inr (toDataURL (exampleWorld (2048, 1) (answer [] []) (answer [] []))
            \<lparr>width = 1024, height = 0,
             drawn = [DrawImageRegion (Image ''data:image/jpeg;base64,/9j/'' 1024 1024)
                        (Num 0) (Num (2047 / 4)) (Num 1024) (Num (1 / 2))
                        (Num 0) (Num 0) (Num 1024) (Num (1 / 2))]\<rparr>
            ''image/jpeg'' quality) \<and>
   cropToOriginalAspectRatio (exampleWorld (2048, 1) (answer [] []) (answer [] []))
     ''data:image/jpeg;base64,/9j/'' (Num 2048) (Num 1) (Num 1024) = Inr ''data:,''"
proof -
  let ?w = "exampleWorld (2048, 1) (answer [] []) (answer [] [])"
  let ?r = "''data:image/png;base64,Q09OVEVYVA==''"
  let ?u = "''data:image/jpeg;base64,/9j/''"
  have rd: "readAsDataURL ?w contextFile = Some ?r"
    by (simp add: exampleWorld_def exampleReader_def contextFile_def)
  have ld: "loadImage ?w ?r = Some (2048, 1)"
    by (simp add: exampleWorld_def exampleLoader_def)
  have lq: "loadImage ?w ?u = Some (1024, 1024)"
    by (simp add: exampleWorld_def exampleLoader_def)
  have d: "setDimension 300 (Num 1024) = 1024" "setDimension 150 (Num 1024) = 1024"
    "setDimension 150 (Num (1 / 2)) = 0"
    using setDimension_floor[of 1024] setDimension_floor[of "1 / 2" 150] by simp_all
  have 1: "resizeImage ?w contextFile (Num 1024) =
     Inr \<lparr>name = ''room.png'', fileType = ''image/jpeg'', lastModified = 0,
          bytes = Encoded
                    \<lparr>width = 1024, height = 1024,
                     drawn = [FillRect ''black'' (Num 0) (Num 0) (Num 1024) (Num 1024),
                              DrawImage (Image ?r 2048 1)
                                (Num 0) (Num (2047 / 4)) (Num 1024) (Num (1 / 2))]\<rparr>
                    ''image/jpeg'' quality\<rparr>"
    using resizeImage_box[OF rd _ ld, of "Num 1024"]
    by (simp add: d contentBox_2048_1 paddedCanvas_def toBlob_def exampleWorld_def
                  contextFile_def)
  have 2: "readAsDataURL ?w
     \<lparr>name = ''room.png'', fileType = ''image/jpeg'', lastModified = 0,
      bytes = Encoded
                \<lparr>width = 1024, height = 1024,
                 drawn = [FillRect ''black'' (Num 0) (Num 0) (Num 1024) (Num 1024),
                          DrawImage (Image ?r 2048 1)
                            (Num 0) (Num (2047 / 4)) (Num 1024) (Num (1 / 2))]\<rparr>
                ''image/jpeg'' quality\<rparr> = Some ?u"
    by (simp add: exampleWorld_def exampleReader_def)
  have 3: "cropToOriginalAspectRatio ?w ?u (Num 2048) (Num 1) (Num 1024) =
     Inr (toDataURL ?w
            \<lparr>width = 1024, height = 0,
             drawn = [DrawImageRegion (Image ?u 1024 1024)
                        (Num 0) (Num (2047 / 4)) (Num 1024) (Num (1 / 2))
                        (Num 0) (Num 0) (Num 1024) (Num (1 / 2))]\<rparr>
            ''image/jpeg'' quality)"
    using crop_box[OF lq, of "Num 2048" "Num 1" "Num 1024"]
    by (simp add: contentBox_2048_1 d croppedCanvas_def exampleWorld_def)
  have 4: "cropToOriginalAspectRatio ?w ?u (Num 2048) (Num 1) (Num 1024) = Inr ''data:,''"
    unfolding 3 by (simp add: toDataURL_def)
  from 1 2 lq 3 4 show ?thesis by (intro conjI)
qed

end
